theory Spec2Isabelle
  imports Main
begin

section \<open>Values, dictionaries and exceptions\<close>

text \<open>
  The program is a single Python module, \<^verbatim>\<open>app.py\<close>. An uploaded file is parsed by
  \<^verbatim>\<open>json.load\<close> into Python values; \<open>'n json\<close> is the type of those values, with the
  numbers (Python \<^verbatim>\<open>int\<close> and \<^verbatim>\<open>float\<close>) kept abstract in \<open>'n\<close>. A JSON object (a
  \<^verbatim>\<open>dict\<close>) is an association list in which the first binding of a key is the one that
  counts; an \<^verbatim>\<open>OrderedDict\<close> is the same, its list order being the insertion order.
  A Python string is the list of the bytes of its UTF-8 encoding, so that ASCII text is
  written as it is, and emptiness, equality and concatenation are those of the Python
  strings. What depends on the characters themselves (\<^verbatim>\<open>isdigit\<close>, \<^verbatim>\<open>int\<close>) is not
  defined here but taken from Python, see \<open>prims\<close> below.
\<close>

datatype 'n json =
    JNull
  | JBool bool
  | JNum 'n
  | JStr string
  | JArr "'n json list"
  | JObj "(string \<times> 'n json) list"

type_synonym 'n location = "(string \<times> 'n json) list"

text \<open>The exceptions that the module raises or catches.\<close>

datatype exn =
    TypeError
  | AttributeError
  | ValueError
  | JSONDecodeError
  | UnicodeDecodeError
  | RecursionError
  | ApiError
  | TransportError
  | Timeout
  | OtherError

text \<open>
  What the module takes from Python and its libraries without defining it:
  \<^item> \<^verbatim>\<open>json.load\<close> on the bytes of the uploaded file: the parsed value, or the exception
    it raises (\<^verbatim>\<open>JSONDecodeError\<close> for text that is not JSON, \<^verbatim>\<open>UnicodeDecodeError\<close> for
    bytes that are not text, \<^verbatim>\<open>RecursionError\<close> for nesting that is too deep, and so on);
  \<^item> the truth value of a number, \<^verbatim>\<open>round(x, 10)\<close>, and \<^verbatim>\<open>str\<close> on a value that is not
    a string;
  \<^item> \<^verbatim>\<open>s.isdigit()\<close>, which holds of the non-empty strings of ASCII digits and of other
    strings too (a superscript two, or the digits of other scripts);
  \<^item> \<^verbatim>\<open>int(s)\<close> for a string \<open>s\<close> that \<^verbatim>\<open>isdigit\<close> accepts: the number, or the
    \<^verbatim>\<open>ValueError\<close> that Python raises when the string is not a decimal numeral or is
    longer than the interpreter's limit on the digits of an integer;
  \<^item> \<^verbatim>\<open>str(n)\<close> for a natural number: its numeral, or the \<^verbatim>\<open>ValueError\<close> of the same
    limit.
\<close>

record 'n prims =
  json_load :: "string \<Rightarrow> exn + 'n json"
  num_truthy :: "'n \<Rightarrow> bool"
  round10 :: "'n \<Rightarrow> 'n"
  str_other :: "'n json \<Rightarrow> string"
  str_isdigit :: "string \<Rightarrow> bool"
  str_int :: "string \<Rightarrow> exn + nat"
  nat_str :: "nat \<Rightarrow> exn + string"

fun truthy :: "'n prims \<Rightarrow> 'n json \<Rightarrow> bool" where
  "truthy p JNull = False"
| "truthy p (JBool b) = b"
| "truthy p (JNum x) = num_truthy p x"
| "truthy p (JStr s) = (s \<noteq> [])"
| "truthy p (JArr xs) = (xs \<noteq> [])"
| "truthy p (JObj kvs) = (kvs \<noteq> [])"

fun py_str :: "'n prims \<Rightarrow> 'n json \<Rightarrow> string" where
  "py_str p (JStr s) = s"
| "py_str p v = str_other p v"

fun is_str :: "'n json \<Rightarrow> bool" where
  "is_str (JStr s) = True"
| "is_str v = False"

text \<open>\<^verbatim>\<open>d.get(k, default)\<close> and \<^verbatim>\<open>d[k] = v\<close> (an existing key keeps its place, a new key
  goes last).\<close>

definition od_get :: "(string \<times> 'v) list \<Rightarrow> string \<Rightarrow> 'v \<Rightarrow> 'v" where
  "od_get d k dflt = (case map_of d k of None \<Rightarrow> dflt | Some v \<Rightarrow> v)"

fun od_set :: "(string \<times> 'v) list \<Rightarrow> string \<Rightarrow> 'v \<Rightarrow> (string \<times> 'v) list" where
  "od_set [] k v = [(k, v)]"
| "od_set ((k', v') # d) k v = (if k' = k then (k, v) # d else (k', v') # od_set d k v)"

text \<open>\<^verbatim>\<open>sep.join(parts)\<close> on strings; on Python values it raises \<^verbatim>\<open>TypeError\<close> when a
  part is not a string.\<close>

fun join :: "string \<Rightarrow> string list \<Rightarrow> string" where
  "join sep [] = []"
| "join sep [x] = x"
| "join sep (x # y # ys) = x @ sep @ join sep (y # ys)"

fun strs_of :: "'n json list \<Rightarrow> exn + string list" where
  "strs_of [] = Inr []"
| "strs_of (JStr s # vs) = (case strs_of vs of Inl e \<Rightarrow> Inl e | Inr ss \<Rightarrow> Inr (s # ss))"
| "strs_of (v # vs) = Inl TypeError"

definition py_join :: "string \<Rightarrow> 'n json list \<Rightarrow> exn + string" where
  "py_join sep vs = (case strs_of vs of Inl e \<Rightarrow> Inl e | Inr ss \<Rightarrow> Inr (join sep ss))"

section \<open>The module's constants\<close>

definition EXPECTED_FIELDS :: "string list" where
  "EXPECTED_FIELDS =
    [''id'', ''name'', ''lat'', ''lng'', ''category'', ''address'', ''address2'',
     ''city'', ''state'', ''postal'', ''phone'', ''web'', ''hours1'', ''hours2'',
     ''hours3'', ''featured'', ''features'', ''date'']"

section \<open>Normalisation: \<^verbatim>\<open>preprocess_locations\<close>\<close>

text \<open>
  The \<^verbatim>\<open>for\<close> loop iterates over whatever \<^verbatim>\<open>json.load\<close> returned: the elements of a
  list, the keys of a dict, the characters of a string; anything else is not iterable
  (\<^verbatim>\<open>TypeError\<close>). Each element must have a \<^verbatim>\<open>get\<close> method, which among JSON values
  only a dict has (\<^verbatim>\<open>AttributeError\<close> otherwise). The model iterates a string byte by
  byte, Python character by character: the loop stops at the first element either way,
  and runs zero times for the empty string only.
\<close>

fun py_iter :: "'n json \<Rightarrow> exn + 'n json list" where
  "py_iter (JArr xs) = Inr xs"
| "py_iter (JObj kvs) = Inr (map (\<lambda>kv. JStr (fst kv)) kvs)"
| "py_iter (JStr s) = Inr (map (\<lambda>c. JStr [c]) s)"
| "py_iter v = Inl TypeError"

definition ordered :: "'n location \<Rightarrow> 'n location" where
  "ordered loc_data = map (\<lambda>field. (field, od_get loc_data field (JStr ''''))) EXPECTED_FIELDS"

fun preprocess_loop :: "'n json list \<Rightarrow> exn + 'n location list" where
  "preprocess_loop [] = Inr []"
| "preprocess_loop (JObj loc_data # rest) =
     (case preprocess_loop rest of
        Inl e \<Rightarrow> Inl e
      | Inr locations \<Rightarrow> Inr (ordered loc_data # locations))"
| "preprocess_loop (v # rest) = Inl AttributeError"

definition preprocess_locations :: "'n json \<Rightarrow> exn + 'n location list" where
  "preprocess_locations locations_data =
     (case py_iter locations_data of
        Inl e \<Rightarrow> Inl e
      | Inr items \<Rightarrow> preprocess_loop items)"

section \<open>\<^verbatim>\<open>assign_ids\<close>\<close>

text \<open>
  The first pass collects \<^verbatim>\<open>existing_ids\<close> and \<^verbatim>\<open>max_id\<close>; the second pass writes
  \<^verbatim>\<open>str(next_id)\<close> into every location whose id \<^verbatim>\<open>isdigit\<close> does not accept. Calling
  \<^verbatim>\<open>isdigit\<close> on a value that is not a string raises \<^verbatim>\<open>AttributeError\<close>; \<^verbatim>\<open>int\<close> and
  \<^verbatim>\<open>str\<close> may raise \<^verbatim>\<open>ValueError\<close>. Nothing is caught. The source mutates the locations
  in place; the model returns the new list. The set \<^verbatim>\<open>existing_ids\<close> is built and never
  read.
\<close>

fun first_pass ::
  "'n prims \<Rightarrow> 'n location list \<Rightarrow> nat set \<times> nat \<Rightarrow> exn + (nat set \<times> nat)" where
  "first_pass p [] acc = Inr acc"
| "first_pass p (location # rest) (existing_ids, max_id) =
     (case od_get location ''id'' (JStr '''') of
        JStr id_str \<Rightarrow>
          if str_isdigit p id_str
          then (case str_int p id_str of
                  Inl e \<Rightarrow> Inl e
                | Inr id_num \<Rightarrow>
                    first_pass p rest (insert id_num existing_ids, max max_id id_num))
          else first_pass p rest (existing_ids, max_id)
      | _ \<Rightarrow> Inl AttributeError)"

fun second_pass :: "'n prims \<Rightarrow> 'n location list \<Rightarrow> nat \<Rightarrow> exn + 'n location list" where
  "second_pass p [] next_id = Inr []"
| "second_pass p (location # rest) next_id =
     (case od_get location ''id'' (JStr '''') of
        JStr id_str \<Rightarrow>
          if \<not> str_isdigit p id_str
          then (case nat_str p next_id of
                  Inl e \<Rightarrow> Inl e
                | Inr new_id \<Rightarrow>
                    (case second_pass p rest (next_id + 1) of
                       Inl e \<Rightarrow> Inl e
                     | Inr out \<Rightarrow> Inr (od_set location ''id'' (JStr new_id) # out)))
          else (case second_pass p rest next_id of
                  Inl e \<Rightarrow> Inl e
                | Inr out \<Rightarrow> Inr (location # out))
      | _ \<Rightarrow> Inl AttributeError)"

definition assign_ids :: "'n prims \<Rightarrow> 'n location list \<Rightarrow> exn + 'n location list" where
  "assign_ids p locations =
     (case first_pass p locations ({}, 0) of
        Inl e \<Rightarrow> Inl e
      | Inr (existing_ids, max_id) \<Rightarrow> second_pass p locations (max_id + 1))"

section \<open>The remote service\<close>

text \<open>
  The \<^verbatim>\<open>googlemaps\<close> client is outside the repository. Its three calls are taken
  as parameters: each maps its argument and the state of the world to a response, or an
  exception, and the next state of the world. The responses have the shape the code
  reads:
  \<^item> \<^verbatim>\<open>geocode\<close>: a list of results, of which only
    \<^verbatim>\<open>['geometry']['location']\<close>, a pair of numbers, is read;
  \<^item> \<^verbatim>\<open>find_place\<close>: the list under \<^verbatim>\<open>'candidates'\<close> (a missing key and an empty
    list are the same to the code), each candidate a dict with the requested keys, any
    of which may be absent;
  \<^item> \<^verbatim>\<open>place\<close>: the dict under \<^verbatim>\<open>'result'\<close>, if any, with the requested keys, any of
    which may be absent.
  The keys that the code reads with a default (\<^verbatim>\<open>types\<close>, \<^verbatim>\<open>long_name\<close>,
  \<^verbatim>\<open>short_name\<close>) hold that default when absent.
\<close>

datatype weekday_text = Lines "string list" | NotAList

record component =
  types :: "string list"
  long_name :: string
  short_name :: string

record details =
  formatted_address :: "string option"
  address_components :: "component list option"
  formatted_phone_number :: "string option"
  website :: "string option"
  opening_hours :: "weekday_text option option"

record candidate =
  place_id :: "string option"
  candidate_address :: "string option"
  candidate_hours :: "weekday_text option option"

datatype request = Geocode string | FindPlace string | Place string

record ('n, 'w) gmaps =
  gmaps_geocode :: "string \<Rightarrow> 'w \<Rightarrow> (exn + ('n \<times> 'n) list) \<times> 'w"
  gmaps_find_place :: "string \<Rightarrow> 'w \<Rightarrow> (exn + candidate list) \<times> 'w"
  gmaps_place :: "string \<Rightarrow> 'w \<Rightarrow> (exn + details option) \<times> 'w"

text \<open>The state threaded through the run: the world, and the requests issued so far.\<close>

record 'w st =
  world :: 'w
  calls :: "request list"

definition issued :: "'w st \<Rightarrow> request \<Rightarrow> 'w \<Rightarrow> 'w st" where
  "issued st r w' = \<lparr>world = w', calls = calls st @ [r]\<rparr>"

text \<open>The truth value of a dict: it has a key.\<close>

definition candidate_truthy :: "candidate \<Rightarrow> bool" where
  "candidate_truthy c =
     (place_id c \<noteq> None \<or> candidate_address c \<noteq> None \<or> candidate_hours c \<noteq> None)"

definition details_truthy :: "details \<Rightarrow> bool" where
  "details_truthy d =
     (formatted_address d \<noteq> None \<or> address_components d \<noteq> None \<or>
      formatted_phone_number d \<noteq> None \<or> website d \<noteq> None \<or> opening_hours d \<noteq> None)"

definition empty_details :: details where
  "empty_details =
     \<lparr>formatted_address = None, address_components = None,
      formatted_phone_number = None, website = None, opening_hours = None\<rparr>"

section \<open>\<^verbatim>\<open>find_place\<close> and \<^verbatim>\<open>get_place_details\<close>\<close>

definition find_place ::
  "'n prims \<Rightarrow> ('n, 'w) gmaps \<Rightarrow> 'n json \<Rightarrow> 'n json \<Rightarrow> 'n json \<Rightarrow> 'w st
     \<Rightarrow> candidate option \<times> 'w st" where
  "find_place p g location_name city state st =
     (let query = py_str p location_name @ '' in '' @ py_str p city @ '', '' @ py_str p state;
          (response, w') = gmaps_find_place g query (world st);
          st' = issued st (FindPlace query) w'
      in case response of
           Inl e \<Rightarrow> (None, st')
         | Inr [] \<Rightarrow> (None, st')
         | Inr (c # cs) \<Rightarrow> (Some c, st'))"

definition get_place_details :: "('n, 'w) gmaps \<Rightarrow> string \<Rightarrow> 'w st \<Rightarrow> details \<times> 'w st" where
  "get_place_details g pid st =
     (let (response, w') = gmaps_place g pid (world st);
          st' = issued st (Place pid) w'
      in case response of
           Inl e \<Rightarrow> (empty_details, st')
         | Inr None \<Rightarrow> (empty_details, st')
         | Inr (Some d) \<Rightarrow> (d, st'))"

section \<open>\<^verbatim>\<open>update_location_info\<close>\<close>

text \<open>
  The function is modelled in the order of its source: the geocoding block (lines
  134 to 157), the place lookup (160 to 216) with the merge of the details (169 to 208),
  and the closing block (218 to 230). The building of \<^verbatim>\<open>full_address\<close> stands before
  the \<^verbatim>\<open>try\<close>, so its \<^verbatim>\<open>TypeError\<close> leaves the function; every exception of a remote
  call is caught. Logging and the pauses between calls are left out.
\<close>

definition geocode_block ::
  "'n prims \<Rightarrow> ('n, 'w) gmaps \<Rightarrow> 'n location \<Rightarrow> 'w st \<Rightarrow> (exn + 'n location) \<times> 'w st" where
  "geocode_block p g location st =
     (if \<not> truthy p (od_get location ''lat'' JNull) \<or> \<not> truthy p (od_get location ''lng'' JNull)
      then
        (case py_join '', ''
                (filter (truthy p)
                   [od_get location ''address'' (JStr ''''),
                    od_get location ''city'' (JStr ''''),
                    od_get location ''state'' (JStr ''''),
                    od_get location ''postal'' (JStr ''''),
                    JStr ''USA'']) of
           Inl e \<Rightarrow> (Inl e, st)
         | Inr full_address \<Rightarrow>
             (let (geocode_result, w') = gmaps_geocode g full_address (world st);
                  st' = issued st (Geocode full_address) w'
              in case geocode_result of
                   Inr ((lat, lng) # rest) \<Rightarrow>
                     (Inr (od_set (od_set location ''lat'' (JNum (round10 p lat)))
                             ''lng'' (JNum (round10 p lng))), st')
                 | Inr [] \<Rightarrow> (Inr location, st')
                 | Inl e \<Rightarrow> (Inr location, st')))
      else (Inr location, st))"

text \<open>The loop over the address components: an \<^verbatim>\<open>if\<close>/\<^verbatim>\<open>elif\<close> chain, the last
  matching component of each kind winning.\<close>

fun parse_components ::
  "component list \<Rightarrow> string \<times> string \<times> string \<times> string \<times> string
     \<Rightarrow> string \<times> string \<times> string \<times> string \<times> string" where
  "parse_components [] acc = acc"
| "parse_components (c # cs) (street_number, route, city, state, postal) =
     (if ''street_number'' \<in> set (types c)
        then parse_components cs (long_name c, route, city, state, postal)
      else if ''route'' \<in> set (types c)
        then parse_components cs (street_number, long_name c, city, state, postal)
      else if ''locality'' \<in> set (types c)
        then parse_components cs (street_number, route, long_name c, state, postal)
      else if ''administrative_area_level_1'' \<in> set (types c)
        then parse_components cs (street_number, route, city, short_name c, postal)
      else if ''postal_code'' \<in> set (types c)
        then parse_components cs (street_number, route, city, state, long_name c)
      else parse_components cs (street_number, route, city, state, postal))"

text \<open>\<^verbatim>\<open>s or v\<close> for a string \<open>s\<close>.\<close>

definition str_or :: "string \<Rightarrow> 'n json \<Rightarrow> 'n json" where
  "str_or s v = (if s \<noteq> [] then JStr s else v)"

definition street_address_of :: "string \<Rightarrow> string \<Rightarrow> string" where
  "street_address_of street_number route =
     join '' '' (filter (\<lambda>s. s \<noteq> []) [street_number, route])"

definition weekday_text_of :: "details \<Rightarrow> weekday_text" where
  "weekday_text_of d =
     (case opening_hours d of
        None \<Rightarrow> Lines []
      | Some hours \<Rightarrow> (case hours of None \<Rightarrow> Lines [] | Some wt \<Rightarrow> wt))"

definition merge_details :: "'n location \<Rightarrow> details \<Rightarrow> 'n location" where
  "merge_details location d =
     (case parse_components (case address_components d of None \<Rightarrow> [] | Some cs \<Rightarrow> cs)
             ('''', '''', '''', '''', '''') of
        (street_number, route, city, state, postal) \<Rightarrow>
     (let street_address = street_address_of street_number route;
          l1 = od_set location ''address'' (str_or street_address (od_get location ''address'' (JStr '''')));
          l2 = od_set l1 ''city'' (str_or city (od_get l1 ''city'' (JStr '''')));
          l3 = od_set l2 ''state'' (str_or state (od_get l2 ''state'' (JStr '''')));
          l4 = od_set l3 ''postal'' (str_or postal (od_get l3 ''postal'' (JStr '''')));
          l5 = od_set l4 ''phone''
                 (case formatted_phone_number d of
                    Some v \<Rightarrow> JStr v
                  | None \<Rightarrow> od_get l4 ''phone'' (JStr ''''));
          l6 = od_set l5 ''web''
                 (case website d of
                    Some v \<Rightarrow> JStr v
                  | None \<Rightarrow> od_get l5 ''web'' (JStr ''''))
      in case weekday_text_of d of
           Lines ls \<Rightarrow> od_set l6 ''hours1'' (JStr (join [CHR 0x0A] ls))
         | NotAList \<Rightarrow> od_set l6 ''hours1'' (od_get l6 ''hours1'' (JStr ''''))))"

definition closing_block :: "'n prims \<Rightarrow> 'n location \<Rightarrow> 'n location" where
  "closing_block p location =
     (let l1 = od_set location ''lat'' (JStr (py_str p (od_get location ''lat'' (JStr ''''))));
          l2 = od_set l1 ''lng'' (JStr (py_str p (od_get l1 ''lng'' (JStr ''''))));
          l3 = (if \<not> truthy p (od_get l2 ''featured'' JNull)
                then od_set l2 ''featured'' (JStr ''no'') else l2)
      in ordered l3)"

definition place_block ::
  "'n prims \<Rightarrow> ('n, 'w) gmaps \<Rightarrow> 'n location \<Rightarrow> 'n location \<Rightarrow> 'w st \<Rightarrow> 'n location \<times> 'w st" where
  "place_block p g location0 location st =
     (case find_place p g (od_get location0 ''name'' (JStr ''''))
             (od_get location0 ''city'' (JStr '''')) (od_get location0 ''state'' (JStr '''')) st of
        (None, st') \<Rightarrow> (location, st')
      | (Some place, st') \<Rightarrow>
          if candidate_truthy place then
            (case place_id place of
               None \<Rightarrow> (location, st')
             | Some pid \<Rightarrow>
                 if pid \<noteq> [] then
                   (case get_place_details g pid st' of
                      (d, st'') \<Rightarrow>
                        if details_truthy d then (merge_details location d, st'')
                        else (location, st''))
                 else (location, st'))
          else (location, st'))"

definition update_location_info ::
  "'n prims \<Rightarrow> ('n, 'w) gmaps \<Rightarrow> 'n location \<Rightarrow> 'w st \<Rightarrow> (exn + 'n location) \<times> 'w st" where
  "update_location_info p g location st =
     (case geocode_block p g location st of
        (Inl e, st') \<Rightarrow> (Inl e, st')
      | (Inr location', st') \<Rightarrow>
          (case place_block p g location location' st' of
             (location'', st'') \<Rightarrow> (Inr (closing_block p location''), st'')))"

section \<open>\<^verbatim>\<open>process_locations\<close> and \<^verbatim>\<open>main\<close>\<close>

fun process_locations ::
  "'n prims \<Rightarrow> ('n, 'w) gmaps \<Rightarrow> 'n location list \<Rightarrow> 'w st
     \<Rightarrow> (exn + 'n location list) \<times> 'w st" where
  "process_locations p g [] st = (Inr [], st)"
| "process_locations p g (location # rest) st =
     (case update_location_info p g location st of
        (Inl e, st') \<Rightarrow> (Inl e, st')
      | (Inr updated_location, st') \<Rightarrow>
          (case process_locations p g rest st' of
             (Inl e, st'') \<Rightarrow> (Inl e, st'')
           | (Inr updated_locations, st'') \<Rightarrow>
               (Inr (updated_location # updated_locations), st'')))"

text \<open>
  What a run of \<^verbatim>\<open>main\<close> shows: the status messages of the page in order (those of
  \<^verbatim>\<open>st.info\<close>, \<^verbatim>\<open>st.success\<close> and \<^verbatim>\<open>st.error\<close>; the title, the introduction, the
  progress bar and the status line are left out), the data behind the
  download button if the button was produced (the list that \<^verbatim>\<open>json.dumps\<close>
  serialises), the requests sent to the remote service, and the exception that left
  \<^verbatim>\<open>main\<close>, if one did. Only \<^verbatim>\<open>JSONDecodeError\<close> is caught. \<open>button\<close> says whether
  "Update Locations" was pressed.
\<close>

datatype message = Awaiting_upload | Loaded nat | Updated | Error_decoding

record 'n outcome =
  messages :: "message list"
  download :: "'n location list option"
  requests :: "request list"
  raised :: "exn option"

text \<open>The \<^verbatim>\<open>except json.JSONDecodeError\<close> clause around the body of \<^verbatim>\<open>main\<close>: that
  exception is reported by \<^verbatim>\<open>st.error\<close>, any other one leaves \<^verbatim>\<open>main\<close>.\<close>

definition except_clause :: "message list \<Rightarrow> request list \<Rightarrow> exn \<Rightarrow> 'n outcome" where
  "except_clause shown sent e =
     (if e = JSONDecodeError
      then \<lparr>messages = shown @ [Error_decoding], download = None, requests = sent,
            raised = None\<rparr>
      else \<lparr>messages = shown, download = None, requests = sent, raised = Some e\<rparr>)"

definition main ::
  "'n prims \<Rightarrow> ('n, 'w) gmaps \<Rightarrow> string option \<Rightarrow> bool \<Rightarrow> 'w \<Rightarrow> 'n outcome" where
  "main p g uploaded_file button w =
     (case uploaded_file of
        None \<Rightarrow> \<lparr>messages = [Awaiting_upload], download = None, requests = [], raised = None\<rparr>
      | Some file \<Rightarrow>
          (case json_load p file of
             Inl e \<Rightarrow> except_clause [] [] e
           | Inr locations_data \<Rightarrow>
               (case preprocess_locations locations_data of
                  Inl e \<Rightarrow> except_clause [] [] e
                | Inr locations \<Rightarrow>
                    (case assign_ids p locations of
                       Inl e \<Rightarrow> except_clause [Loaded (length locations)] [] e
                     | Inr locations' \<Rightarrow>
                         if button then
                           (case process_locations p g locations' \<lparr>world = w, calls = []\<rparr> of
                              (Inl e, st) \<Rightarrow>
                                except_clause [Loaded (length locations)] (calls st) e
                            | (Inr updated_locations, st) \<Rightarrow>
                                \<lparr>messages = [Loaded (length locations), Updated],
                                 download = Some updated_locations,
                                 requests = calls st, raised = None\<rparr>)
                         else
                           \<lparr>messages = [Loaded (length locations)], download = None,
                            requests = [], raised = None\<rparr>))))"

section \<open>Notions used in the statements\<close>

text \<open>
  The definitions of this section are not taken from the source: they name what the
  statements below talk about.
\<close>

subsection \<open>Identifiers\<close>

text \<open>
  The id of a record as \<^verbatim>\<open>assign_ids\<close> reads it; whether \<^verbatim>\<open>isdigit\<close> accepts it (a
  valid id, which is kept), whether \<^verbatim>\<open>int\<close> converts it, and the number it then stands
  for; the largest number among the kept ids of a batch (0 when there is none); and how
  many records before position \<open>i\<close> get a fresh id.
\<close>

definition id_of :: "'n location \<Rightarrow> 'n json" where
  "id_of location = od_get location ''id'' (JStr '''')"

definition valid_id :: "'n prims \<Rightarrow> 'n location \<Rightarrow> bool" where
  "valid_id p location = (case id_of location of JStr s \<Rightarrow> str_isdigit p s | _ \<Rightarrow> False)"

definition int_ok :: "'n prims \<Rightarrow> 'n location \<Rightarrow> bool" where
  "int_ok p location =
     (case id_of location of
        JStr s \<Rightarrow> (case str_int p s of Inl e \<Rightarrow> False | Inr n \<Rightarrow> True)
      | _ \<Rightarrow> False)"

definition id_num :: "'n prims \<Rightarrow> 'n location \<Rightarrow> nat" where
  "id_num p location =
     (case id_of location of
        JStr s \<Rightarrow> (case str_int p s of Inl e \<Rightarrow> 0 | Inr n \<Rightarrow> n)
      | _ \<Rightarrow> 0)"

definition max_kept :: "'n prims \<Rightarrow> 'n location list \<Rightarrow> nat" where
  "max_kept p locations = foldr max (map (id_num p) (filter (valid_id p) locations)) 0"

definition fresh_before :: "'n prims \<Rightarrow> 'n location list \<Rightarrow> nat \<Rightarrow> nat" where
  "fresh_before p locations i = length (filter (\<lambda>l. \<not> valid_id p l) (take i locations))"

text \<open>
  The facts of Python on which the fresh ids rest: \<^verbatim>\<open>str(n)\<close> returns a string that
  \<^verbatim>\<open>isdigit\<close> accepts and \<^verbatim>\<open>int\<close> converts back to \<open>n\<close>. Python has them for every
  \<open>n\<close> below its limit on the digits of an integer. \<open>fresh_str\<close> is that string.
\<close>

definition roundtrip :: "'n prims \<Rightarrow> nat \<Rightarrow> bool" where
  "roundtrip p n =
     (case nat_str p n of
        Inl e \<Rightarrow> False
      | Inr s \<Rightarrow> str_isdigit p s \<and> str_int p s = Inr n)"

definition fresh_str :: "'n prims \<Rightarrow> nat \<Rightarrow> string" where
  "fresh_str p n = (case nat_str p n of Inl e \<Rightarrow> [] | Inr s \<Rightarrow> s)"

text \<open>A batch on which \<^verbatim>\<open>assign_ids\<close> raises nothing: the ids are strings, \<^verbatim>\<open>int\<close>
  converts those that \<^verbatim>\<open>isdigit\<close> accepts, and \<^verbatim>\<open>str\<close> and \<^verbatim>\<open>int\<close> agree on the
  numbers that can become fresh ids.\<close>

definition ids_convertible :: "'n prims \<Rightarrow> 'n location list \<Rightarrow> bool" where
  "ids_convertible p locations =
     (list_all (\<lambda>l. is_str (id_of l) \<and> (valid_id p l \<longrightarrow> int_ok p l)) locations \<and>
      list_all (roundtrip p)
        [max_kept p locations + 1 ..< max_kept p locations + 1 + length locations])"

text \<open>The second pass of \<^verbatim>\<open>assign_ids\<close> on such a batch.\<close>

fun relabel :: "'n prims \<Rightarrow> 'n location list \<Rightarrow> nat \<Rightarrow> 'n location list" where
  "relabel p [] n = []"
| "relabel p (l # ls) n =
     (if valid_id p l then l # relabel p ls n
      else od_set l ''id'' (JStr (fresh_str p n)) # relabel p ls (n + 1))"

subsection \<open>Records and requests\<close>

text \<open>A record all of whose values are strings, as the uploaded file is meant to hold.\<close>

definition string_valued :: "'n location \<Rightarrow> bool" where
  "string_valued location = list_all (\<lambda>kv. is_str (snd kv)) location"

fun is_geocode :: "request \<Rightarrow> bool" where
  "is_geocode (Geocode a) = True"
| "is_geocode r = False"

fun is_place :: "request \<Rightarrow> bool" where
  "is_place (Place a) = True"
| "is_place r = False"

text \<open>The query that \<^verbatim>\<open>find_place\<close> sends for a record, and the parts of the address
  that the geocoding block joins.\<close>

definition place_query :: "'n prims \<Rightarrow> 'n location \<Rightarrow> string" where
  "place_query p location =
     py_str p (od_get location ''name'' (JStr '''')) @ '' in '' @
     py_str p (od_get location ''city'' (JStr '''')) @ '', '' @
     py_str p (od_get location ''state'' (JStr ''''))"

definition full_address_parts :: "'n prims \<Rightarrow> 'n location \<Rightarrow> 'n json list" where
  "full_address_parts p location =
     filter (truthy p)
       [od_get location ''address'' (JStr ''''), od_get location ''city'' (JStr ''''),
        od_get location ''state'' (JStr ''''), od_get location ''postal'' (JStr ''''),
        JStr ''USA'']"

text \<open>A find-place response with no candidate: the call raised, or the list is empty.\<close>

definition no_candidate :: "exn + candidate list \<Rightarrow> bool" where
  "no_candidate response = (case response of Inl e \<Rightarrow> True | Inr cs \<Rightarrow> cs = [])"

text \<open>
  What the details of a place say about the address, stated without the loop. A
  component counts as a street number when its types contain \<^verbatim>\<open>street_number\<close>; as a
  route when they contain \<^verbatim>\<open>route\<close> and it is no street number; as a locality, a state
  or a postal code in the same way, each kind giving way to the kinds before it. The
  value of a kind is the name of the last component of that kind, and the empty string
  when there is none; the name is the long name, for the state the short name.
\<close>

definition has_type :: "string \<Rightarrow> component \<Rightarrow> bool" where
  "has_type t c = (t \<in> set (types c))"

definition is_street_number :: "component \<Rightarrow> bool" where
  "is_street_number c = has_type ''street_number'' c"

definition is_route :: "component \<Rightarrow> bool" where
  "is_route c = (has_type ''route'' c \<and> \<not> is_street_number c)"

definition is_locality :: "component \<Rightarrow> bool" where
  "is_locality c = (has_type ''locality'' c \<and> \<not> is_street_number c \<and> \<not> is_route c)"

definition is_state :: "component \<Rightarrow> bool" where
  "is_state c =
     (has_type ''administrative_area_level_1'' c \<and>
      \<not> is_street_number c \<and> \<not> is_route c \<and> \<not> is_locality c)"

definition is_postal_code :: "component \<Rightarrow> bool" where
  "is_postal_code c =
     (has_type ''postal_code'' c \<and>
      \<not> is_street_number c \<and> \<not> is_route c \<and> \<not> is_locality c \<and> \<not> is_state c)"

definition last_value ::
  "string \<Rightarrow> (component \<Rightarrow> bool) \<Rightarrow> (component \<Rightarrow> string) \<Rightarrow> component list \<Rightarrow> string" where
  "last_value dflt kind name cs =
     (case filter kind cs of [] \<Rightarrow> dflt | c # rest \<Rightarrow> name (last (c # rest)))"

definition components_of :: "details \<Rightarrow> component list" where
  "components_of d = (case address_components d of None \<Rightarrow> [] | Some cs \<Rightarrow> cs)"

definition street_number_of :: "details \<Rightarrow> string" where
  "street_number_of d = last_value [] is_street_number long_name (components_of d)"

definition route_of :: "details \<Rightarrow> string" where
  "route_of d = last_value [] is_route long_name (components_of d)"

definition city_of :: "details \<Rightarrow> string" where
  "city_of d = last_value [] is_locality long_name (components_of d)"

definition state_of :: "details \<Rightarrow> string" where
  "state_of d = last_value [] is_state short_name (components_of d)"

definition postal_of :: "details \<Rightarrow> string" where
  "postal_of d = last_value [] is_postal_code long_name (components_of d)"

text \<open>What the loop of the source computes on the same details.\<close>

definition extracted :: "details \<Rightarrow> string \<times> string \<times> string \<times> string \<times> string" where
  "extracted d =
     parse_components (case address_components d of None \<Rightarrow> [] | Some cs \<Rightarrow> cs)
       ('''', '''', '''', '''', '''')"

text \<open>The fields that the merge writes, and the fields that nothing writes after
  normalisation.\<close>

definition merged_fields :: "string list" where
  "merged_fields = [''address'', ''city'', ''state'', ''postal'', ''phone'', ''web'', ''hours1'']"

definition untouched_fields :: "string list" where
  "untouched_fields =
     [''name'', ''category'', ''address2'', ''hours2'', ''hours3'', ''features'', ''date'']"

subsection \<open>Uploads\<close>

text \<open>A parsed upload of the expected shape: a list whose elements are objects.\<close>

fun is_obj :: "'n json \<Rightarrow> bool" where
  "is_obj (JObj kvs) = True"
| "is_obj v = False"

fun list_of_objects :: "'n json \<Rightarrow> bool" where
  "list_of_objects (JArr xs) = list_all is_obj xs"
| "list_of_objects v = False"

section \<open>A sample Python and a sample service\<close>

text \<open>
  Concrete primitives and a concrete remote service, on which the theorems below are
  instantiated. Numbers are integers here, \<^verbatim>\<open>round\<close> is the identity on them, and the
  world has no state. The sample \<^verbatim>\<open>isdigit\<close> accepts the non-empty strings of ASCII
  digits and the superscript two (the bytes \<open>C2 B2\<close>); the sample \<^verbatim>\<open>int\<close> converts the
  former and raises \<^verbatim>\<open>ValueError\<close> on the latter, as Python does; the sample \<^verbatim>\<open>str\<close>
  writes a number in decimal. The sample \<^verbatim>\<open>json.load\<close> knows four files and takes any other for text that is not JSON.
\<close>

definition digit_chars :: "char list" where
  "digit_chars = ''0123456789''"

definition is_digit :: "char \<Rightarrow> bool" where
  "is_digit c = (c \<in> set digit_chars)"

definition ascii_isdigit :: "string \<Rightarrow> bool" where
  "ascii_isdigit s = (s \<noteq> [] \<and> list_all is_digit s)"

definition digit_val :: "char \<Rightarrow> nat" where
  "digit_val c = of_char c - 48"

definition digit_char :: "nat \<Rightarrow> char" where
  "digit_char d = digit_chars ! d"

definition decimal_value :: "string \<Rightarrow> nat" where
  "decimal_value s = foldl (\<lambda>acc c. 10 * acc + digit_val c) 0 s"

fun str_nat :: "nat \<Rightarrow> string" where
  "str_nat n = (if n < 10 then [digit_char n] else str_nat (n div 10) @ [digit_char (n mod 10)])"

declare str_nat.simps [simp del]

definition superscript_two :: string where
  "superscript_two = [CHR 0xC2, CHR 0xB2]"

definition demo_isdigit :: "string \<Rightarrow> bool" where
  "demo_isdigit s = (ascii_isdigit s \<or> s = superscript_two)"

definition demo_int :: "string \<Rightarrow> exn + nat" where
  "demo_int s = (if ascii_isdigit s then Inr (decimal_value s) else Inl ValueError)"

fun demo_str :: "int json \<Rightarrow> string" where
  "demo_str (JNum x) = (if x < 0 then ''-'' else []) @ str_nat (nat \<bar>x\<bar>)"
| "demo_str v = ''None''"

definition demo_load :: "string \<Rightarrow> exn + int json" where
  "demo_load file =
     (if file = ''acme'' then
        Inr (JArr [JObj [(''name'', JStr ''Acme Store''), (''city'', JStr ''Austin''),
                         (''state'', JStr ''TX'')]])
      else if file = [CHR 0x22, CHR 0x22] then Inr (JStr [])
      else if file = ''[1]'' then Inr (JArr [JNum 1])
      else if file = [CHR 0xE9] then Inl UnicodeDecodeError
      else Inl JSONDecodeError)"

definition demo_prims :: "int prims" where
  "demo_prims =
     \<lparr>json_load = demo_load, num_truthy = (\<lambda>x. x \<noteq> 0), round10 = (\<lambda>x. x),
      str_other = demo_str, str_isdigit = demo_isdigit, str_int = demo_int,
      nat_str = (\<lambda>n. Inr (str_nat n))\<rparr>"

definition full_details :: details where
  "full_details =
     \<lparr>formatted_address = None,
      address_components =
        Some [\<lparr>types = [''street_number''], long_name = ''100'', short_name = ''100''\<rparr>,
              \<lparr>types = [''route''], long_name = ''Congress Avenue'', short_name = ''Congress Ave''\<rparr>,
              \<lparr>types = [''locality'', ''political''], long_name = ''Austin'', short_name = ''Austin''\<rparr>,
              \<lparr>types = [''administrative_area_level_1'', ''political''], long_name = ''Texas'',
               short_name = ''TX''\<rparr>,
              \<lparr>types = [''country'', ''political''], long_name = ''United States'',
               short_name = ''US''\<rparr>,
              \<lparr>types = [''postal_code''], long_name = ''78701'', short_name = ''78701''\<rparr>],
      formatted_phone_number = None, website = None, opening_hours = None\<rparr>"

definition demo_details :: details where
  "demo_details =
     \<lparr>formatted_address = None,
      address_components =
        Some [\<lparr>types = [''street_number''], long_name = ''100'', short_name = ''100''\<rparr>,
              \<lparr>types = [''route''], long_name = ''Congress Avenue'', short_name = ''Congress Ave''\<rparr>,
              \<lparr>types = [''locality'', ''political''], long_name = ''Austin'', short_name = ''Austin''\<rparr>,
              \<lparr>types = [''administrative_area_level_1'', ''political''], long_name = ''Texas'',
               short_name = ''TX''\<rparr>],
      formatted_phone_number = Some ''(512) 555-0100'',
      website = None,
      opening_hours = Some (Some (Lines [''Monday: 9-5'', ''Tuesday: 9-5'']))\<rparr>"

definition bare_details :: details where
  "bare_details =
     \<lparr>formatted_address = Some ''Austin, TX'', address_components = None,
      formatted_phone_number = Some [], website = None, opening_hours = None\<rparr>"

definition demo_gmaps :: "(int, unit) gmaps" where
  "demo_gmaps =
     \<lparr>gmaps_geocode =
        (\<lambda>address w. (if address = ''Austin, TX, USA'' then Inr [(30, - 97), (31, - 98)] else Inr [], w)),
      gmaps_find_place =
        (\<lambda>query w.
           (if query = ''Acme Store in Austin, TX''
              then Inr [\<lparr>place_id = Some ''P1'', candidate_address = None, candidate_hours = None\<rparr>]
            else if query = ''Bare Store in Austin, TX''
              then Inr [\<lparr>place_id = Some ''P2'', candidate_address = None, candidate_hours = None\<rparr>]
            else if query = ''Acme Store in Round Rock, Texas''
              then Inr [\<lparr>place_id = Some ''P3'', candidate_address = None, candidate_hours = None\<rparr>]
            else Inr [], w)),
      gmaps_place =
        (\<lambda>pid w.
           (if pid = ''P1'' then Inr (Some demo_details)
            else if pid = ''P2'' then Inr (Some bare_details)
            else if pid = ''P3'' then Inr (Some full_details)
            else Inl ApiError, w))\<rparr>"

definition start :: "unit st" where
  "start = \<lparr>world = (), calls = []\<rparr>"

section \<open>Dictionaries and normalisation\<close>

lemma map_of_od_set: "map_of (od_set d k v) = (map_of d)(k \<mapsto> v)"
  by (induction d) (auto simp: fun_eq_iff)

lemma od_get_od_set:
  "od_get (od_set d k v) k' dflt = (if k' = k then v else od_get d k' dflt)"
  by (simp add: od_get_def map_of_od_set)

lemma map_fst_od_set: "k \<in> fst ` set d \<Longrightarrow> map fst (od_set d k v) = map fst d"
  by (induction d) force+

lemma distinct_EXPECTED_FIELDS: "distinct EXPECTED_FIELDS"
  by (simp add: EXPECTED_FIELDS_def)

lemma length_EXPECTED_FIELDS: "length EXPECTED_FIELDS = 18"
  by (simp add: EXPECTED_FIELDS_def)

lemma map_fst_ordered: "map fst (ordered d) = EXPECTED_FIELDS"
  by (simp add: ordered_def comp_def)

lemma map_of_ordered:
  "map_of (ordered d) f = (if f \<in> set EXPECTED_FIELDS then Some (od_get d f (JStr '''')) else None)"
proof -
  have "map_of (map (\<lambda>k. (k, h k)) fs) f = (if f \<in> set fs then Some (h f) else None)"
    for fs and h :: "string \<Rightarrow> 'a json"
    by (induction fs) auto
  then show ?thesis by (simp add: ordered_def)
qed

lemma od_get_ordered:
  "od_get (ordered d) f dflt = (if f \<in> set EXPECTED_FIELDS then od_get d f (JStr '''') else dflt)"
  by (simp add: od_get_def[of "ordered d"] map_of_ordered)

lemma assoc_rebuild:
  "distinct (map fst d) \<Longrightarrow> map (\<lambda>k. (k, od_get d k dflt)) (map fst d) = d"
proof (induction d)
  case Nil
  then show ?case by simp
next
  case (Cons a d)
  obtain k v where a: "a = (k, v)" by (cases a)
  from Cons.prems a have notin: "k \<notin> fst ` set d" and dist: "distinct (map fst d)" by auto
  have "map (\<lambda>k'. (k', od_get (a # d) k' dflt)) (map fst d) = map (\<lambda>k'. (k', od_get d k' dflt)) (map fst d)"
    using notin a by (auto simp: od_get_def)
  with Cons.IH[OF dist] a show ?case by (simp add: od_get_def)
qed

lemma ordered_fixpoint: "map fst d = EXPECTED_FIELDS \<Longrightarrow> ordered d = d"
  using assoc_rebuild[of d "JStr ''''"] distinct_EXPECTED_FIELDS
  by (simp add: ordered_def)

lemma ordered_idem: "ordered (ordered d) = ordered d"
  by (rule ordered_fixpoint) (rule map_fst_ordered)

lemma preprocess_loop_objects:
  "preprocess_loop (map JObj locs) = Inr (map ordered locs)"
  by (induction locs) auto

lemma preprocess_loop_normalised:
  "preprocess_loop items = Inr locs \<Longrightarrow> \<forall>l\<in>set locs. map fst l = EXPECTED_FIELDS"
proof (induction items arbitrary: locs rule: preprocess_loop.induct)
  case 1
  then show ?case by simp
next
  case (2 loc_data rest)
  then show ?case by (auto simp: map_fst_ordered split: sum.splits)
qed simp_all

lemma preprocess_locations_normalised:
  "preprocess_locations data = Inr locs \<Longrightarrow> \<forall>l\<in>set locs. map fst l = EXPECTED_FIELDS"
  by (auto simp: preprocess_locations_def split: sum.splits dest: preprocess_loop_normalised)

lemma map_ordered_fixpoint:
  "\<forall>l\<in>set locs. map fst l = EXPECTED_FIELDS \<Longrightarrow> map ordered locs = locs"
  by (induction locs) (auto simp: ordered_fixpoint)

section \<open>The sample decimal strings\<close>

lemma digit_cases: "d < 10 \<Longrightarrow> d \<in> {0, 1, 2, 3, 4, 5, 6, 7, 8, 9::nat}"
  by auto

lemma is_digit_digit_char: "d < 10 \<Longrightarrow> is_digit (digit_char d)"
  using digit_cases[of d] by (auto simp: is_digit_def digit_char_def digit_chars_def)

lemma digit_val_digit_char: "d < 10 \<Longrightarrow> digit_val (digit_char d) = d"
  using digit_cases[of d] by (auto simp: digit_val_def digit_char_def digit_chars_def)

lemma str_nat_nonempty: "str_nat n \<noteq> []"
  by (subst str_nat.simps) simp

lemma list_all_digit_str_nat: "list_all is_digit (str_nat n)"
proof (induction n rule: str_nat.induct)
  case (1 n)
  show ?case
  proof (cases "n < 10")
    case True
    then show ?thesis by (subst str_nat.simps) (simp add: is_digit_digit_char)
  next
    case False
    with 1 show ?thesis by (subst str_nat.simps) (simp add: is_digit_digit_char)
  qed
qed

lemma isdigit_str_nat: "ascii_isdigit (str_nat n)"
  by (simp add: ascii_isdigit_def str_nat_nonempty list_all_digit_str_nat)

lemma int_of_str_snoc: "decimal_value (s @ [c]) = 10 * decimal_value s + digit_val c"
  by (simp add: decimal_value_def)

lemma int_of_str_str_nat: "decimal_value (str_nat n) = n"
proof (induction n rule: str_nat.induct)
  case (1 n)
  show ?case
  proof (cases "n < 10")
    case True
    then show ?thesis
      by (subst str_nat.simps) (simp add: decimal_value_def digit_val_digit_char)
  next
    case False
    from 1 False have ih: "decimal_value (str_nat (n div 10)) = n div 10" by blast
    have "str_nat n = str_nat (n div 10) @ [digit_char (n mod 10)]"
      using False by (subst str_nat.simps) simp
    then have "decimal_value (str_nat n) = 10 * (n div 10) + n mod 10"
      by (simp only: int_of_str_snoc ih) (simp add: digit_val_digit_char)
    then show ?thesis by simp
  qed
qed

lemma str_nat_inj: "str_nat m = str_nat n \<Longrightarrow> m = n"
  by (metis int_of_str_str_nat)

section \<open>Identifier assignment: lemmas\<close>

lemma roundtripD:
  assumes "roundtrip p n"
  shows "nat_str p n = Inr (fresh_str p n)" "str_isdigit p (fresh_str p n)"
    "str_int p (fresh_str p n) = Inr n"
  using assms by (auto simp: roundtrip_def fresh_str_def split: sum.splits)

lemma fresh_str_inj:
  "roundtrip p m \<Longrightarrow> roundtrip p n \<Longrightarrow> fresh_str p m = fresh_str p n \<Longrightarrow> m = n"
  by (metis roundtripD(3) sum.inject(2))

lemma valid_id_str:
  "valid_id p l \<Longrightarrow> int_ok p l \<Longrightarrow>
   \<exists>s. id_of l = JStr s \<and> str_isdigit p s \<and> str_int p s = Inr (id_num p l)"
  by (cases "id_of l") (auto simp: valid_id_def int_ok_def id_num_def split: sum.splits)

lemma first_pass_max:
  "\<forall>l\<in>set locs. is_str (id_of l) \<and> (valid_id p l \<longrightarrow> int_ok p l) \<Longrightarrow>
   \<exists>ids. first_pass p locs (S, m) = Inr (ids, max m (max_kept p locs))"
proof (induction locs arbitrary: S m)
  case Nil
  then show ?case by (simp add: max_kept_def)
next
  case (Cons l ls)
  from Cons.prems obtain s where s: "od_get l ''id'' (JStr '''') = JStr s"
    by (cases "od_get l ''id'' (JStr '''')") (auto simp: id_of_def)
  from Cons.prems have rest: "\<forall>l\<in>set ls. is_str (id_of l) \<and> (valid_id p l \<longrightarrow> int_ok p l)"
    by simp
  show ?case
  proof (cases "str_isdigit p s")
    case True
    with s have v: "valid_id p l" by (simp add: valid_id_def id_of_def)
    with Cons.prems have "int_ok p l" by simp
    with s have n: "str_int p s = Inr (id_num p l)"
      by (auto simp: int_ok_def id_num_def id_of_def split: sum.splits)
    from Cons.IH[OF rest, of "insert (id_num p l) S" "max m (id_num p l)"]
    show ?thesis using s True n v
      by (auto simp: max_kept_def max.assoc)
  next
    case False
    with s have v: "\<not> valid_id p l" by (simp add: valid_id_def id_of_def)
    from Cons.IH[OF rest, of S m]
    show ?thesis using s False v
      by (auto simp: max_kept_def)
  qed
qed

lemma second_pass_relabel:
  "\<forall>l\<in>set locs. is_str (id_of l) \<Longrightarrow>
   \<forall>k. n \<le> k \<and> k < n + length locs \<longrightarrow> roundtrip p k \<Longrightarrow>
   second_pass p locs n = Inr (relabel p locs n)"
proof (induction locs arbitrary: n)
  case Nil
  then show ?case by simp
next
  case (Cons l ls)
  from Cons.prems(1) obtain s where s: "od_get l ''id'' (JStr '''') = JStr s"
    by (cases "od_get l ''id'' (JStr '''')") (auto simp: id_of_def)
  from Cons.prems(1) have rest: "\<forall>l\<in>set ls. is_str (id_of l)" by simp
  show ?case
  proof (cases "str_isdigit p s")
    case True
    from Cons.prems(2) have "\<forall>k. n \<le> k \<and> k < n + length ls \<longrightarrow> roundtrip p k" by simp
    from Cons.IH[OF rest this] s True show ?thesis
      by (simp add: valid_id_def id_of_def)
  next
    case False
    from Cons.prems(2) have "roundtrip p n" by simp
    then have str: "nat_str p n = Inr (fresh_str p n)" by (rule roundtripD)
    from Cons.prems(2) have "\<forall>k. n + 1 \<le> k \<and> k < n + 1 + length ls \<longrightarrow> roundtrip p k" by simp
    from Cons.IH[OF rest this] s False str show ?thesis
      by (simp add: valid_id_def id_of_def)
  qed
qed

lemma ids_convertibleD:
  assumes "ids_convertible p locs"
  shows "\<forall>l\<in>set locs. is_str (id_of l)"
    and "\<forall>l\<in>set locs. valid_id p l \<longrightarrow> int_ok p l"
    and "\<forall>k. max_kept p locs + 1 \<le> k \<and> k < max_kept p locs + 1 + length locs \<longrightarrow> roundtrip p k"
  using assms by (auto simp: ids_convertible_def list_all_iff)

lemma assign_ids_relabel:
  assumes "ids_convertible p locs"
  shows "assign_ids p locs = Inr (relabel p locs (max_kept p locs + 1))"
proof -
  from ids_convertibleD[OF assms]
  have "\<forall>l\<in>set locs. is_str (id_of l) \<and> (valid_id p l \<longrightarrow> int_ok p l)" by blast
  from first_pass_max[OF this, of "{}" 0]
  obtain ids where "first_pass p locs ({}, 0) = Inr (ids, max_kept p locs)" by auto
  then show ?thesis
    using second_pass_relabel[OF ids_convertibleD(1)[OF assms] ids_convertibleD(3)[OF assms]]
    by (simp add: assign_ids_def)
qed

lemma length_relabel: "length (relabel p locs n) = length locs"
  by (induction locs arbitrary: n) auto

lemma relabel_nth:
  "i < length locs \<Longrightarrow>
   relabel p locs n ! i =
     (if valid_id p (locs ! i) then locs ! i
      else od_set (locs ! i) ''id'' (JStr (fresh_str p (n + fresh_before p locs i))))"
proof (induction locs arbitrary: n i)
  case Nil
  then show ?case by simp
next
  case (Cons l ls)
  show ?case
  proof (cases i)
    case 0
    then show ?thesis by (simp add: fresh_before_def)
  next
    case (Suc k)
    with Cons.prems have k: "k < length ls" by simp
    show ?thesis using Suc Cons.IH[OF k] by (simp add: fresh_before_def)
  qed
qed

lemma id_of_fresh: "id_of (od_set l ''id'' (JStr s)) = JStr s"
  by (simp add: id_of_def od_get_od_set)

lemma valid_id_fresh: "roundtrip p k \<Longrightarrow> valid_id p (od_set l ''id'' (JStr (fresh_str p k)))"
  by (simp add: valid_id_def id_of_fresh roundtripD)

lemma int_ok_fresh: "roundtrip p k \<Longrightarrow> int_ok p (od_set l ''id'' (JStr (fresh_str p k)))"
  by (simp add: int_ok_def id_of_fresh roundtripD)

lemma id_num_fresh: "roundtrip p k \<Longrightarrow> id_num p (od_set l ''id'' (JStr (fresh_str p k))) = k"
  by (simp add: id_num_def id_of_fresh roundtripD)

lemma id_num_le_max_kept: "l \<in> set locs \<Longrightarrow> valid_id p l \<Longrightarrow> id_num p l \<le> max_kept p locs"
  by (induction locs) (auto simp: max_kept_def)

lemma relabel_cases:
  "x \<in> set (relabel p locs n) \<Longrightarrow>
   (x \<in> set locs \<and> valid_id p x) \<or>
   (\<exists>k. n \<le> k \<and> k < n + length locs \<and> id_of x = JStr (fresh_str p k))"
proof (induction locs arbitrary: n)
  case Nil
  then show ?case by simp
next
  case (Cons l ls)
  show ?case
  proof (cases "valid_id p l")
    case True
    with Cons.prems have "x = l \<or> x \<in> set (relabel p ls n)" by simp
    then show ?thesis
    proof
      assume "x = l"
      with True show ?thesis by simp
    next
      assume "x \<in> set (relabel p ls n)"
      from Cons.IH[OF this] show ?thesis by auto
    qed
  next
    case False
    with Cons.prems have "x = od_set l ''id'' (JStr (fresh_str p n)) \<or> x \<in> set (relabel p ls (n + 1))"
      by simp
    then show ?thesis
    proof
      assume "x = od_set l ''id'' (JStr (fresh_str p n))"
      then have "n \<le> n \<and> n < n + length (l # ls) \<and> id_of x = JStr (fresh_str p n)"
        by (simp add: id_of_fresh)
      then show ?thesis by blast
    next
      assume "x \<in> set (relabel p ls (n + 1))"
      from Cons.IH[OF this]
      have "(x \<in> set ls \<and> valid_id p x) \<or>
        (\<exists>k. n + 1 \<le> k \<and> k < n + 1 + length ls \<and> id_of x = JStr (fresh_str p k))" .
      then show ?thesis
      proof
        assume "x \<in> set ls \<and> valid_id p x"
        then show ?thesis by simp
      next
        assume "\<exists>k. n + 1 \<le> k \<and> k < n + 1 + length ls \<and> id_of x = JStr (fresh_str p k)"
        then obtain k where "n + 1 \<le> k" "k < n + 1 + length ls" "id_of x = JStr (fresh_str p k)"
          by blast
        then have "n \<le> k \<and> k < n + length (l # ls) \<and> id_of x = JStr (fresh_str p k)" by simp
        then show ?thesis by blast
      qed
    qed
  qed
qed

lemma valid_id_relabel:
  assumes "\<forall>l\<in>set locs. valid_id p l \<longrightarrow> int_ok p l"
    and "\<forall>k. n \<le> k \<and> k < n + length locs \<longrightarrow> roundtrip p k"
  shows "\<forall>l\<in>set (relabel p locs n). valid_id p l \<and> int_ok p l"
proof
  fix x assume "x \<in> set (relabel p locs n)"
  from relabel_cases[OF this] show "valid_id p x \<and> int_ok p x"
  proof
    assume "x \<in> set locs \<and> valid_id p x"
    with assms(1) show ?thesis by blast
  next
    assume "\<exists>k. n \<le> k \<and> k < n + length locs \<and> id_of x = JStr (fresh_str p k)"
    then obtain k where k: "n \<le> k" "k < n + length locs" "id_of x = JStr (fresh_str p k)"
      by blast
    with assms(2) have "roundtrip p k" by blast
    with k(3) show ?thesis
      by (simp add: valid_id_def int_ok_def roundtripD)
  qed
qed

lemma kept_differs_from_fresh:
  assumes "valid_id p l" "int_ok p l" "id_num p l < k" "roundtrip p k"
  shows "id_of l \<noteq> JStr (fresh_str p k)"
proof
  assume eq: "id_of l = JStr (fresh_str p k)"
  from valid_id_str[OF assms(1,2)] obtain s where
    s: "id_of l = JStr s" "str_int p s = Inr (id_num p l)" by blast
  from eq s(1) have "s = fresh_str p k" by simp
  with s(2) have "str_int p (fresh_str p k) = Inr (id_num p l)" by blast
  with roundtripD(3)[OF assms(4)] have "Inr k = (Inr (id_num p l) :: exn + nat)" by metis
  then have "id_num p l = k" by blast
  with assms(3) show False by simp
qed

lemma distinct_relabel:
  "distinct (map id_of (filter (valid_id p) locs)) \<Longrightarrow>
   \<forall>l\<in>set locs. valid_id p l \<longrightarrow> int_ok p l \<and> id_num p l < n \<Longrightarrow>
   \<forall>k. n \<le> k \<and> k < n + length locs \<longrightarrow> roundtrip p k \<Longrightarrow>
   distinct (map id_of (relabel p locs n))"
proof (induction locs arbitrary: n)
  case Nil
  then show ?case by simp
next
  case (Cons l ls)
  show ?case
  proof (cases "valid_id p l")
    case True
    from Cons.prems(1) True have d: "distinct (map id_of (filter (valid_id p) ls))"
      and notin: "id_of l \<notin> id_of ` {x \<in> set ls. valid_id p x}"
      by auto
    from Cons.prems(2) True have bound: "\<forall>x\<in>set ls. valid_id p x \<longrightarrow> int_ok p x \<and> id_num p x < n"
      and ln: "int_ok p l" "id_num p l < n"
      by auto
    from Cons.prems(3) have rt: "\<forall>k. n \<le> k \<and> k < n + length ls \<longrightarrow> roundtrip p k" by simp
    have "id_of l \<noteq> id_of x" if "x \<in> set (relabel p ls n)" for x
    proof -
      from relabel_cases[OF that] show ?thesis
      proof
        assume "x \<in> set ls \<and> valid_id p x"
        with notin show ?thesis by auto
      next
        assume "\<exists>k. n \<le> k \<and> k < n + length ls \<and> id_of x = JStr (fresh_str p k)"
        then obtain k where k: "n \<le> k" "k < n + length ls" "id_of x = JStr (fresh_str p k)"
          by blast
        with rt have "roundtrip p k" by blast
        with True ln k(1) have "id_of l \<noteq> JStr (fresh_str p k)"
          by (intro kept_differs_from_fresh) simp_all
        with k(3) show ?thesis by simp
      qed
    qed
    then have "id_of l \<notin> id_of ` set (relabel p ls n)" by auto
    with True Cons.IH[OF d bound rt] show ?thesis by simp
  next
    case False
    from Cons.prems(1) False have d: "distinct (map id_of (filter (valid_id p) ls))" by simp
    from Cons.prems(2) have bound: "\<forall>x\<in>set ls. valid_id p x \<longrightarrow> int_ok p x \<and> id_num p x < n + 1"
      by (auto simp: less_Suc_eq)
    from Cons.prems(3) have rt: "\<forall>k. n + 1 \<le> k \<and> k < n + 1 + length ls \<longrightarrow> roundtrip p k"
      and rn: "roundtrip p n" by simp_all
    have "JStr (fresh_str p n) \<noteq> id_of x" if "x \<in> set (relabel p ls (n + 1))" for x
    proof -
      from relabel_cases[OF that] show ?thesis
      proof
        assume a: "x \<in> set ls \<and> valid_id p x"
        with Cons.prems(2) have "int_ok p x" "id_num p x < n" by simp_all
        with a rn have "id_of x \<noteq> JStr (fresh_str p n)"
          by (intro kept_differs_from_fresh) simp_all
        then show ?thesis by simp
      next
        assume "\<exists>k. n + 1 \<le> k \<and> k < n + 1 + length ls \<and> id_of x = JStr (fresh_str p k)"
        then obtain k where k: "n + 1 \<le> k" "k < n + 1 + length ls" "id_of x = JStr (fresh_str p k)"
          by blast
        with rt have rk: "roundtrip p k" by blast
        show ?thesis
        proof
          assume "JStr (fresh_str p n) = id_of x"
          with k(3) have "fresh_str p n = fresh_str p k" by simp
          with rn rk have "n = k" by (rule fresh_str_inj)
          with k(1) show False by simp
        qed
      qed
    qed
    then have "JStr (fresh_str p n) \<notin> id_of ` set (relabel p ls (n + 1))" by auto
    with False Cons.IH[OF d bound rt] show ?thesis by (simp add: id_of_fresh)
  qed
qed

lemma fresh_before_Suc:
  "i < length locs \<Longrightarrow> \<not> valid_id p (locs ! i) \<Longrightarrow>
   fresh_before p locs (Suc i) = fresh_before p locs i + 1"
  by (simp add: fresh_before_def take_Suc_conv_app_nth)

lemma fresh_before_mono: "i \<le> j \<Longrightarrow> fresh_before p locs i \<le> fresh_before p locs j"
proof -
  assume "i \<le> j"
  then have "take j locs = take i locs @ drop i (take j locs)"
    by (metis append_take_drop_id min.absorb1 take_take)
  then have "filter (\<lambda>l. \<not> valid_id p l) (take j locs) =
      filter (\<lambda>l. \<not> valid_id p l) (take i locs) @
      filter (\<lambda>l. \<not> valid_id p l) (drop i (take j locs))"
    by (metis filter_append)
  then show ?thesis by (simp add: fresh_before_def)
qed

lemma fresh_before_less:
  assumes "i < j" "i < length locs" "\<not> valid_id p (locs ! i)"
  shows "fresh_before p locs i < fresh_before p locs j"
proof -
  from assms have "fresh_before p locs (Suc i) = fresh_before p locs i + 1"
    by (simp add: fresh_before_Suc)
  moreover from assms have "fresh_before p locs (Suc i) \<le> fresh_before p locs j"
    by (intro fresh_before_mono) simp
  ultimately show ?thesis by simp
qed

lemma fresh_before_bound: "i < length locs \<Longrightarrow> fresh_before p locs i < length locs"
proof -
  assume i: "i < length locs"
  have "fresh_before p locs i \<le> length (take i locs)"
    unfolding fresh_before_def by (rule length_filter_le)
  with i show ?thesis by simp
qed

lemma fresh_id_differs:
  assumes i: "i < length locs" "\<not> valid_id p (locs ! i)"
    and j: "j < length locs" "j \<noteq> i"
    and ok: "\<forall>l\<in>set locs. valid_id p l \<longrightarrow> int_ok p l"
    and n: "max_kept p locs < n"
    and rt: "\<forall>k. n \<le> k \<and> k < n + length locs \<longrightarrow> roundtrip p k"
  shows "id_of (relabel p locs n ! j) \<noteq> id_of (relabel p locs n ! i)"
proof -
  from i(1) have bi: "n + fresh_before p locs i < n + length locs"
    by (simp add: fresh_before_bound)
  with rt have ri: "roundtrip p (n + fresh_before p locs i)" by simp
  from i have idi: "id_of (relabel p locs n ! i) = JStr (fresh_str p (n + fresh_before p locs i))"
    by (simp add: relabel_nth id_of_fresh)
  show ?thesis
  proof (cases "valid_id p (locs ! j)")
    case True
    from j True have "id_num p (locs ! j) \<le> max_kept p locs"
      by (intro id_num_le_max_kept) simp_all
    with n have lt: "id_num p (locs ! j) < n + fresh_before p locs i" by simp
    from j True ok have "int_ok p (locs ! j)" by simp
    with True lt ri have "id_of (locs ! j) \<noteq> JStr (fresh_str p (n + fresh_before p locs i))"
      by (intro kept_differs_from_fresh)
    with j True idi show ?thesis by (simp add: relabel_nth)
  next
    case False
    from j(1) have "n + fresh_before p locs j < n + length locs"
      by (simp add: fresh_before_bound)
    with rt have rj: "roundtrip p (n + fresh_before p locs j)" by simp
    from j have "i < j \<or> j < i" by auto
    then have neq: "fresh_before p locs i \<noteq> fresh_before p locs j"
      using fresh_before_less[of i j locs p] fresh_before_less[of j i locs p] i j False by auto
    show ?thesis
    proof
      assume "id_of (relabel p locs n ! j) = id_of (relabel p locs n ! i)"
      with idi j False
      have "fresh_str p (n + fresh_before p locs j) = fresh_str p (n + fresh_before p locs i)"
        by (simp add: relabel_nth id_of_fresh)
      with rj ri have "n + fresh_before p locs j = n + fresh_before p locs i"
        by (rule fresh_str_inj)
      with neq show False by simp
    qed
  qed
qed

lemma demo_roundtrip: "roundtrip demo_prims n"
  by (simp add: roundtrip_def demo_prims_def demo_isdigit_def demo_int_def isdigit_str_nat
      int_of_str_str_nat)

lemma isdigit_examples: "ascii_isdigit ''5''" "\<not> ascii_isdigit ''x''" "\<not> ascii_isdigit ''''"
  "\<not> ascii_isdigit superscript_two"
  by (simp_all add: ascii_isdigit_def is_digit_def digit_chars_def superscript_two_def)

lemma demo_valid_id:
  "valid_id demo_prims l =
     (case id_of l of JStr s \<Rightarrow> ascii_isdigit s \<or> s = superscript_two | _ \<Rightarrow> False)"
  by (simp add: valid_id_def demo_prims_def demo_isdigit_def split: json.splits)

section \<open>Enrichment: lemmas\<close>

lemma string_valued_od_get: "string_valued l \<Longrightarrow> is_str (od_get l f (JStr s))"
  unfolding string_valued_def od_get_def
  by (induction l) (auto split: option.splits)

lemma string_valued_ordered: "string_valued l \<Longrightarrow> string_valued (ordered l)"
  using string_valued_od_get[of l]
  by (simp add: string_valued_def ordered_def list_all_iff)

lemma string_valued_od_set: "string_valued l \<Longrightarrow> string_valued (od_set l k (JStr s))"
  unfolding string_valued_def by (induction l) auto

lemma strs_of_strings: "list_all is_str vs \<Longrightarrow> \<exists>ss. strs_of vs = Inr ss"
proof (induction vs)
  case Nil
  then show ?case by simp
next
  case (Cons v vs)
  then obtain s where "v = JStr s" by (cases v) auto
  with Cons show ?case by auto
qed

lemma py_join_strings: "list_all is_str vs \<Longrightarrow> \<exists>s. py_join sep vs = Inr s"
  using strs_of_strings[of vs] by (auto simp: py_join_def)

lemma full_address_parts_strings: "string_valued l \<Longrightarrow> list_all is_str (full_address_parts p l)"
  using string_valued_od_get[of l]
  by (simp add: full_address_parts_def)

subsection \<open>The closing block\<close>

lemma map_fst_closing_block: "map fst (closing_block p l) = EXPECTED_FIELDS"
  by (simp add: closing_block_def Let_def map_fst_ordered)

lemma od_get_closing_block:
  "f \<in> set EXPECTED_FIELDS \<Longrightarrow>
   od_get (closing_block p l) f dflt =
     (if f = ''lat'' then JStr (py_str p (od_get l ''lat'' (JStr '''')))
      else if f = ''lng'' then JStr (py_str p (od_get l ''lng'' (JStr '''')))
      else if f = ''featured''
        then (if truthy p (od_get l ''featured'' JNull) then od_get l ''featured'' (JStr '''')
              else JStr ''no'')
      else od_get l f (JStr ''''))"
  by (simp add: closing_block_def Let_def od_get_ordered od_get_od_set)

subsection \<open>The merge\<close>

lemma od_get_merge_details:
  "parse_components (case address_components d of None \<Rightarrow> [] | Some cs \<Rightarrow> cs)
      ('''', '''', '''', '''', '''') = (street_number, route, city, state, postal) \<Longrightarrow>
   od_get (merge_details l d) f dflt =
     (if f = ''address''
        then str_or (street_address_of street_number route) (od_get l ''address'' (JStr ''''))
      else if f = ''city'' then str_or city (od_get l ''city'' (JStr ''''))
      else if f = ''state'' then str_or state (od_get l ''state'' (JStr ''''))
      else if f = ''postal'' then str_or postal (od_get l ''postal'' (JStr ''''))
      else if f = ''phone''
        then (case formatted_phone_number d of
                Some v \<Rightarrow> JStr v | None \<Rightarrow> od_get l ''phone'' (JStr ''''))
      else if f = ''web''
        then (case website d of Some v \<Rightarrow> JStr v | None \<Rightarrow> od_get l ''web'' (JStr ''''))
      else if f = ''hours1''
        then (case weekday_text_of d of
                Lines ls \<Rightarrow> JStr (join [CHR 0x0A] ls)
              | NotAList \<Rightarrow> od_get l ''hours1'' (JStr ''''))
      else od_get l f dflt)"
  by (simp add: merge_details_def Let_def od_get_od_set
      split: weekday_text.splits option.splits)

subsection \<open>The geocoding block\<close>

lemma geocode_block_skip:
  "truthy p (od_get l ''lat'' JNull) \<Longrightarrow> truthy p (od_get l ''lng'' JNull) \<Longrightarrow>
   geocode_block p g l st = (Inr l, st)"
  by (simp add: geocode_block_def)

lemma geocode_block_frame:
  "geocode_block p g l st = (Inr l1, st1) \<Longrightarrow> f \<noteq> ''lat'' \<Longrightarrow> f \<noteq> ''lng'' \<Longrightarrow>
   od_get l1 f dflt = od_get l f dflt"
  by (auto simp: geocode_block_def Let_def od_get_od_set
      split: if_splits sum.splits prod.splits list.splits)

lemma geocode_block_returns:
  "string_valued l \<Longrightarrow> \<exists>l1 st1. geocode_block p g l st = (Inr l1, st1)"
  using py_join_strings[OF full_address_parts_strings, of l "'', ''" p]
  by (auto simp: geocode_block_def Let_def full_address_parts_def
      split: if_splits sum.splits prod.splits list.splits)

subsection \<open>The blocks together\<close>

lemma find_place_query:
  "find_place p g (od_get l ''name'' (JStr '''')) (od_get l ''city'' (JStr ''''))
      (od_get l ''state'' (JStr '''')) st =
   (case gmaps_find_place g (place_query p l) (world st) of
      (response, w') \<Rightarrow>
        (case response of Inl e \<Rightarrow> None | Inr [] \<Rightarrow> None | Inr (c # cs) \<Rightarrow> Some c,
         issued st (FindPlace (place_query p l)) w'))"
  by (simp add: find_place_def place_query_def Let_def split: prod.splits sum.splits list.splits)

lemma calls_issued: "calls (issued st r w') = calls st @ [r]"
  by (simp add: issued_def)

lemma find_place_calls:
  "find_place p g n c s st = (r, st') \<Longrightarrow> \<exists>q. calls st' = calls st @ [FindPlace q]"
  by (auto simp: find_place_def Let_def calls_issued split: prod.splits sum.splits list.splits)

lemma get_place_details_calls:
  "get_place_details g pid st = (d, st') \<Longrightarrow> calls st' = calls st @ [Place pid]"
  by (auto simp: get_place_details_def Let_def calls_issued
      split: prod.splits sum.splits option.splits)

lemma geocode_block_calls:
  "geocode_block p g l st = (r, st') \<Longrightarrow>
   calls st' = calls st \<or> (\<exists>a. calls st' = calls st @ [Geocode a])"
  by (auto simp: geocode_block_def Let_def calls_issued
      split: if_splits prod.splits sum.splits list.splits)

lemma place_block_no_candidate:
  assumes "gmaps_find_place g (place_query p l0) (world st) = (response, w')"
    and "no_candidate response"
  shows "place_block p g l0 l st = (l, issued st (FindPlace (place_query p l0)) w')"
  using assms
  by (auto simp: place_block_def find_place_query no_candidate_def split: sum.splits list.splits)

lemma place_block_merged:
  assumes "find_place p g (od_get l0 ''name'' (JStr '''')) (od_get l0 ''city'' (JStr ''''))
      (od_get l0 ''state'' (JStr '''')) st = (Some place, st2)"
    and "place_id place = Some pid" and "pid \<noteq> []"
    and "get_place_details g pid st2 = (d, st3)" and "details_truthy d"
  shows "place_block p g l0 l st = (merge_details l d, st3)"
  using assms by (simp add: place_block_def candidate_truthy_def)

lemma place_block_cases:
  "place_block p g l0 l st = (l', st') \<Longrightarrow> l' = l \<or> (\<exists>d. l' = merge_details l d)"
  by (auto simp: place_block_def split: prod.splits option.splits if_splits)

lemma place_block_no_geocode:
  "place_block p g l0 l st = (l', st') \<Longrightarrow>
   filter is_geocode (calls st') = filter is_geocode (calls st)"
  by (auto simp: place_block_def split: prod.splits option.splits if_splits
      dest!: find_place_calls get_place_details_calls)

lemma od_get_merge_details_other:
  "f \<notin> {''address'', ''city'', ''state'', ''postal'', ''phone'', ''web'', ''hours1''} \<Longrightarrow>
   od_get (merge_details l d) f dflt = od_get l f dflt"
  by (cases "extracted d") (simp add: od_get_merge_details extracted_def)

lemma place_block_frame:
  "place_block p g l0 l st = (l', st') \<Longrightarrow>
   f \<notin> {''address'', ''city'', ''state'', ''postal'', ''phone'', ''web'', ''hours1''} \<Longrightarrow>
   od_get l' f dflt = od_get l f dflt"
  by (auto dest!: place_block_cases simp: od_get_merge_details_other)

lemma update_location_info_eq:
  "geocode_block p g l st = (Inr l1, st1) \<Longrightarrow> place_block p g l l1 st1 = (l2, st2) \<Longrightarrow>
   update_location_info p g l st = (Inr (closing_block p l2), st2)"
  by (simp add: update_location_info_def)

lemma update_location_info_cases:
  "update_location_info p g l st = (Inr out, st') \<Longrightarrow>
   \<exists>l1 st1 l2. geocode_block p g l st = (Inr l1, st1) \<and> place_block p g l l1 st1 = (l2, st') \<and>
     out = closing_block p l2"
  by (auto simp: update_location_info_def split: prod.splits sum.splits)

lemma update_location_info_returns:
  "string_valued l \<Longrightarrow> \<exists>out st'. update_location_info p g l st = (Inr out, st')"
  using geocode_block_returns[of l p g st]
  by (auto simp: update_location_info_def split: prod.splits)

lemma update_location_info_fields:
  "update_location_info p g l st = (Inr out, st') \<Longrightarrow> map fst out = EXPECTED_FIELDS"
  by (auto dest!: update_location_info_cases simp: map_fst_closing_block)

lemma update_location_info_untouched:
  assumes "update_location_info p g l st = (Inr out, st')" "f \<in> set untouched_fields \<or> f = ''id''"
  shows "od_get out f dflt = od_get l f (JStr '''')"
proof -
  from assms(1) obtain l1 st1 l2 where
    g: "geocode_block p g l st = (Inr l1, st1)" and b: "place_block p g l l1 st1 = (l2, st')"
    and out: "out = closing_block p l2"
    by (auto dest!: update_location_info_cases)
  from assms(2) have f: "f \<in> set EXPECTED_FIELDS" "f \<noteq> ''lat''" "f \<noteq> ''lng''" "f \<noteq> ''featured''"
    "f \<notin> {''address'', ''city'', ''state'', ''postal'', ''phone'', ''web'', ''hours1''}"
    by (auto simp: untouched_fields_def EXPECTED_FIELDS_def)
  from f have "od_get out f dflt = od_get l2 f (JStr '''')"
    by (simp add: out od_get_closing_block)
  also from f(5) have "\<dots> = od_get l1 f (JStr '''')" by (rule place_block_frame[OF b])
  also from f(2,3) have "\<dots> = od_get l f (JStr '''')" by (rule geocode_block_frame[OF g])
  finally show ?thesis .
qed

lemma merged_expected:
  "f \<in> set merged_fields \<Longrightarrow>
   f \<in> set EXPECTED_FIELDS \<and> f \<noteq> ''lat'' \<and> f \<noteq> ''lng'' \<and> f \<noteq> ''featured''"
  by (auto simp: merged_fields_def EXPECTED_FIELDS_def)

lemma geocode_block_no_place:
  "geocode_block p g l st = (r, st') \<Longrightarrow>
   filter is_place (calls st') = filter is_place (calls st)"
  by (auto dest!: geocode_block_calls)

lemma truthy_present: "truthy p (od_get l f JNull) \<Longrightarrow> od_get l f dflt = od_get l f JNull"
  by (auto simp: od_get_def split: option.splits)

subsection \<open>Runs that reach the merge\<close>

lemma street_address_of_cases:
  "street_address_of street_number route =
     (if street_number = [] then route
      else if route = [] then street_number
      else street_number @ '' '' @ route)"
  by (simp add: street_address_of_def)

lemma update_location_info_merged:
  assumes "geocode_block p g l st = (Inr l1, st1)"
    and "find_place p g (od_get l ''name'' (JStr '''')) (od_get l ''city'' (JStr ''''))
           (od_get l ''state'' (JStr '''')) st1 = (Some place, st2)"
    and "place_id place = Some pid" and "pid \<noteq> []"
    and "get_place_details g pid st2 = (d, st3)" and "details_truthy d"
  shows "update_location_info p g l st = (Inr (closing_block p (merge_details l1 d)), st3)"
proof -
  from assms(2-6) have "place_block p g l l1 st1 = (merge_details l1 d, st3)"
    by (rule place_block_merged)
  with assms(1) show ?thesis by (rule update_location_info_eq)
qed

lemma merged_field_result:
  assumes "geocode_block p g l st = (Inr l1, st1)" and "f \<in> set merged_fields"
  shows "od_get (closing_block p (merge_details l1 d)) f dflt = od_get (merge_details l1 d) f (JStr '''')"
    and "od_get l1 f (JStr '''') = od_get l f (JStr '''')"
proof -
  from assms(2) have f: "f \<in> set EXPECTED_FIELDS" "f \<noteq> ''lat''" "f \<noteq> ''lng''" "f \<noteq> ''featured''"
    using merged_expected by blast+
  then show "od_get (closing_block p (merge_details l1 d)) f dflt = od_get (merge_details l1 d) f (JStr '''')"
    by (simp add: od_get_closing_block)
  from f(2,3) show "od_get l1 f (JStr '''') = od_get l f (JStr '''')"
    by (rule geocode_block_frame[OF assms(1)])
qed

lemmas demo_eval =
  update_location_info_def geocode_block_def place_block_def find_place_def
  get_place_details_def closing_block_def merge_details_def ordered_def EXPECTED_FIELDS_def
  od_get_def issued_def demo_prims_def demo_gmaps_def demo_details_def bare_details_def
  start_def candidate_truthy_def details_truthy_def empty_details_def py_join_def str_or_def
  street_address_of_def weekday_text_of_def Let_def

lemma demo_acme_geocode:
  "geocode_block demo_prims demo_gmaps
     [(''name'', JStr ''Acme Store''), (''city'', JStr ''Austin''), (''state'', JStr ''TX''),
      (''address'', JStr ''old''), (''postal'', JStr ''78701''), (''lat'', JStr ''30.2''),
      (''lng'', JStr ''-97.7''), (''phone'', JStr ''555-0199''), (''web'', JStr ''acme.example''),
      (''hours2'', JStr ''by appointment'')] start =
   (Inr [(''name'', JStr ''Acme Store''), (''city'', JStr ''Austin''), (''state'', JStr ''TX''),
      (''address'', JStr ''old''), (''postal'', JStr ''78701''), (''lat'', JStr ''30.2''),
      (''lng'', JStr ''-97.7''), (''phone'', JStr ''555-0199''), (''web'', JStr ''acme.example''),
      (''hours2'', JStr ''by appointment'')], start)"
  by (simp add: geocode_block_def od_get_def)

lemma demo_acme_find_place:
  "find_place demo_prims demo_gmaps (JStr ''Acme Store'') (JStr ''Austin'') (JStr ''TX'') start =
   (Some \<lparr>place_id = Some ''P1'', candidate_address = None, candidate_hours = None\<rparr>,
    issued start (FindPlace ''Acme Store in Austin, TX'') ())"
  by (simp add: find_place_def demo_gmaps_def)

lemma demo_acme_details:
  "get_place_details demo_gmaps ''P1'' (issued start (FindPlace ''Acme Store in Austin, TX'') ()) =
   (demo_details,
    issued (issued start (FindPlace ''Acme Store in Austin, TX'') ()) (Place ''P1'') ())"
  "details_truthy demo_details"
  "extracted demo_details = (''100'', ''Congress Avenue'', ''Austin'', ''TX'', [])"
  by (simp_all add: get_place_details_def demo_gmaps_def details_truthy_def demo_details_def
      extracted_def)

section \<open>Enrichment: what the loop over the address components extracts\<close>

lemma last_value_Cons:
  "last_value dflt kind name (c # cs) =
     (if kind c then last_value (name c) kind name cs else last_value dflt kind name cs)"
  by (cases "filter kind cs") (simp_all add: last_value_def)

lemma parse_components_last_value:
  "parse_components cs (street_number, route, city, state, postal) =
     (last_value street_number is_street_number long_name cs,
      last_value route is_route long_name cs,
      last_value city is_locality long_name cs,
      last_value state is_state short_name cs,
      last_value postal is_postal_code long_name cs)"
proof (induction cs arbitrary: street_number route city state postal)
  case Nil
  then show ?case by (simp add: last_value_def)
next
  case (Cons c cs)
  show ?case
    by (simp add: Cons.IH last_value_Cons is_street_number_def is_route_def is_locality_def
        is_state_def is_postal_code_def has_type_def)
qed

lemma extracted_eq:
  "extracted d = (street_number_of d, route_of d, city_of d, state_of d, postal_of d)"
  by (simp add: extracted_def parse_components_last_value street_number_of_def route_of_def
      city_of_def state_of_def postal_of_def components_of_def)

lemmas address_eval =
  street_number_of_def route_of_def city_of_def state_of_def postal_of_def components_of_def
  last_value_def is_street_number_def is_route_def is_locality_def is_state_def
  is_postal_code_def has_type_def

lemma full_details_address:
  "street_number_of full_details = ''100''" "route_of full_details = ''Congress Avenue''"
  "city_of full_details = ''Austin''" "state_of full_details = ''TX''"
  "postal_of full_details = ''78701''"
  by (simp_all add: address_eval full_details_def)

lemma bare_details_address:
  "street_number_of bare_details = []" "route_of bare_details = []"
  "city_of bare_details = []" "state_of bare_details = []" "postal_of bare_details = []"
  by (simp_all add: address_eval bare_details_def)

section \<open>The whole run: lemmas\<close>

lemma preprocess_loop_fails:
  "\<not> list_all is_obj items \<Longrightarrow> preprocess_loop items = Inl AttributeError"
proof (induction items rule: preprocess_loop.induct)
  case 1
  then show ?case by simp
next
  case (2 loc_data rest)
  then show ?case by simp
qed simp_all

lemma preprocess_locations_fails:
  assumes "\<not> list_of_objects v" "v \<noteq> JStr []" "v \<noteq> JObj []"
  shows "preprocess_locations v = Inl TypeError \<or> preprocess_locations v = Inl AttributeError"
proof (cases v)
  case (JArr xs)
  with assms(1) show ?thesis
    by (simp add: preprocess_locations_def preprocess_loop_fails)
next
  case (JStr s)
  with assms(2) obtain c cs where "s = c # cs" by (cases s) auto
  with JStr show ?thesis by (simp add: preprocess_locations_def)
next
  case (JObj kvs)
  with assms(3) obtain kv rest where "kvs = kv # rest" by (cases kvs) auto
  with JObj show ?thesis by (simp add: preprocess_locations_def)
qed (simp_all add: preprocess_locations_def)

lemma preprocess_locations_objects:
  "preprocess_locations (JArr (map JObj records)) = Inr (map ordered records)"
  by (simp add: preprocess_locations_def preprocess_loop_objects)

lemma second_pass_carries:
  "second_pass p locs n = Inr out \<Longrightarrow>
   list_all2 (\<lambda>l out. (string_valued l \<longrightarrow> string_valued out) \<and>
      (\<forall>f dflt. f \<noteq> ''id'' \<longrightarrow> od_get out f dflt = od_get l f dflt)) locs out"
proof (induction locs arbitrary: n out)
  case Nil
  then show ?case by simp
next
  case (Cons l ls)
  then show ?case
    by (auto simp: od_get_od_set string_valued_od_set split: json.splits if_splits sum.splits)
qed

lemma assign_ids_carries:
  "assign_ids p locs = Inr out \<Longrightarrow>
   list_all2 (\<lambda>l out. (string_valued l \<longrightarrow> string_valued out) \<and>
      (\<forall>f dflt. f \<noteq> ''id'' \<longrightarrow> od_get out f dflt = od_get l f dflt)) locs out"
  by (auto simp: assign_ids_def split: sum.splits dest: second_pass_carries)

lemma assign_ids_string_valued:
  assumes "assign_ids p locs = Inr out" "list_all string_valued locs"
  shows "list_all string_valued out"
  using assign_ids_carries[OF assms(1)] assms(2)
  by (auto simp: list_all_length list_all2_conv_all_nth)

lemma process_locations_canonical:
  "process_locations p g locs st = (Inr out, st') \<Longrightarrow>
   list_all2 (\<lambda>l out. map fst out = EXPECTED_FIELDS \<and>
      (\<forall>f\<in>set untouched_fields. od_get out f JNull = od_get l f (JStr ''''))) locs out"
proof (induction locs arbitrary: st out)
  case Nil
  then show ?case by simp
next
  case (Cons l ls)
  from Cons.prems obtain u st1 us where
    u: "update_location_info p g l st = (Inr u, st1)"
    and us: "process_locations p g ls st1 = (Inr us, st')" and out: "out = u # us"
    by (auto split: prod.splits sum.splits)
  have "map fst u = EXPECTED_FIELDS"
    using u by (rule update_location_info_fields)
  moreover have "\<forall>f\<in>set untouched_fields. od_get u f JNull = od_get l f (JStr '''')"
    using update_location_info_untouched[OF u] by blast
  ultimately show ?case using Cons.IH[OF us] out by simp
qed

lemma process_locations_returns:
  "list_all string_valued locs \<Longrightarrow> \<exists>out st'. process_locations p g locs st = (Inr out, st')"
proof (induction locs arbitrary: st)
  case Nil
  then show ?case by simp
next
  case (Cons l ls)
  from Cons.prems have l: "string_valued l" and ls: "list_all string_valued ls" by simp_all
  from update_location_info_returns[OF l, of p g st]
  obtain u st1 where u: "update_location_info p g l st = (Inr u, st1)" by blast
  from Cons.IH[OF ls, of st1] obtain us st2 where
    "process_locations p g ls st1 = (Inr us, st2)" by blast
  with u show ?case by simp
qed

lemma main_download:
  assumes "download (main p g (Some file) button w) = Some out"
  shows "\<exists>v locs locs' st. json_load p file = Inr v \<and> preprocess_locations v = Inr locs \<and>
     assign_ids p locs = Inr locs' \<and>
     process_locations p g locs' \<lparr>world = w, calls = []\<rparr> = (Inr out, st)"
  using assms
  by (auto simp: main_def except_clause_def split: sum.splits prod.splits if_splits)

lemma demo_load_examples:
  "json_load demo_prims ''acme'' =
     Inr (JArr (map JObj [[(''name'', JStr ''Acme Store''), (''city'', JStr ''Austin''),
                           (''state'', JStr ''TX'')]]))"
  "json_load demo_prims [CHR 0x22, CHR 0x22] = Inr (JStr [])"
  "json_load demo_prims ''[1]'' = Inr (JArr [JNum 1])"
  "json_load demo_prims ''{name: Acme'' = Inl JSONDecodeError"
  "json_load demo_prims [CHR 0xE9] = Inl UnicodeDecodeError"
  by (simp_all add: demo_prims_def demo_load_def)

section \<open>Claims about normalisation\<close>

text \<open>
  Claim C9. Normalisation is idempotent: normalising a normalised record returns it.
  A record that already has exactly the eighteen canonical fields in the canonical order
  is left as it is, and a list of records that \<^verbatim>\<open>preprocess_locations\<close> returned is
  returned unchanged when it is given to \<^verbatim>\<open>preprocess_locations\<close> again.
\<close>

theorem normalization_idempotent:
  "ordered (ordered r) = ordered r \<and>
   (map fst r = EXPECTED_FIELDS \<longrightarrow> ordered r = r) \<and>
   (preprocess_locations data = Inr locations \<longrightarrow>
      preprocess_locations (JArr (map JObj locations)) = Inr locations)"
proof (intro conjI impI)
  show "ordered (ordered r) = ordered r" by (rule ordered_idem)
next
  assume "map fst r = EXPECTED_FIELDS"
  then show "ordered r = r" by (rule ordered_fixpoint)
next
  assume "preprocess_locations data = Inr locations"
  then have "map ordered locations = locations"
    by (intro map_ordered_fixpoint preprocess_locations_normalised)
  then show "preprocess_locations (JArr (map JObj locations)) = Inr locations"
    by (simp add: preprocess_locations_def preprocess_loop_objects)
qed

theorem normalization_idempotent_witness:
  "map fst (ordered [(''state'', JStr ''TX''), (''name'', JStr ''Acme Store'')]) = EXPECTED_FIELDS \<and>
   ordered (ordered [(''state'', JStr ''TX''), (''name'', JStr ''Acme Store'')]) =
     ordered [(''state'', JStr ''TX''), (''name'', JStr ''Acme Store'')] \<and>
   preprocess_locations (JArr [JObj [(''state'', JStr ''TX''), (''name'', JStr ''Acme Store'')]]) =
     Inr [ordered [(''state'', JStr ''TX''), (''name'', JStr ''Acme Store'')]] \<and>
   preprocess_locations
       (JArr (map JObj [ordered [(''state'', JStr ''TX''), (''name'', JStr ''Acme Store'')]])) =
     Inr [ordered [(''state'', JStr ''TX''), (''name'', JStr ''Acme Store'')]]"
proof -
  let ?r = "[(''state'', JStr ''TX''), (''name'', JStr ''Acme Store'')]"
  have a: "map fst (ordered ?r) = EXPECTED_FIELDS"
    by (rule map_fst_ordered)
  have b: "preprocess_locations (JArr [JObj ?r]) = Inr [ordered ?r]"
    by (simp add: preprocess_locations_def)
  from normalization_idempotent [of "ordered ?r" "JArr [JObj ?r]" "[ordered ?r]"] a b
  have "ordered (ordered ?r) = ordered ?r"
    and "preprocess_locations (JArr (map JObj [ordered ?r])) = Inr [ordered ?r]"
    by blast+
  with a b show ?thesis by blast
qed

section \<open>Claims about identifier assignment\<close>

text \<open>
  Claim C2, as amended. Take a batch whose id values are strings, on which \<^verbatim>\<open>int\<close>
  converts every id that \<^verbatim>\<open>isdigit\<close> accepts, and for which \<^verbatim>\<open>str\<close> and \<^verbatim>\<open>int\<close>
  agree on the numbers from one above the largest kept number up to that number plus the
  size of the batch (Python has both for ASCII digits below its limit on the digits of
  an integer). Then \<^verbatim>\<open>assign_ids\<close> returns; it keeps every record whose id \<^verbatim>\<open>isdigit\<close>
  accepts as it is and gives every other record, in input order, \<^verbatim>\<open>str\<close> of the next
  number from one above the largest kept number (from 1 when none is kept). Afterwards
  every record has an id that \<^verbatim>\<open>isdigit\<close> accepts and \<^verbatim>\<open>int\<close> converts; each new id is
  above the largest kept number and differs from the id of every other record of the
  batch; and the ids of the whole batch are pairwise distinct when the kept ids were.
\<close>

theorem assign_ids_fresh_above_kept:
  assumes "ids_convertible p locations"
  shows "\<exists>out. assign_ids p locations = Inr out \<and> length out = length locations \<and>
     (\<forall>i<length locations.
        if valid_id p (locations ! i) then out ! i = locations ! i
        else nat_str p (max_kept p locations + 1 + fresh_before p locations i) =
               Inr (fresh_str p (max_kept p locations + 1 + fresh_before p locations i)) \<and>
             out ! i =
               od_set (locations ! i) ''id''
                 (JStr (fresh_str p (max_kept p locations + 1 + fresh_before p locations i)))) \<and>
     (\<forall>l\<in>set out. valid_id p l \<and> int_ok p l) \<and>
     (\<forall>i<length locations. \<not> valid_id p (locations ! i) \<longrightarrow>
        max_kept p locations < id_num p (out ! i) \<and>
        (\<forall>j<length locations. j \<noteq> i \<longrightarrow> id_of (out ! j) \<noteq> id_of (out ! i))) \<and>
     (distinct (map id_of (filter (valid_id p) locations)) \<longrightarrow> distinct (map id_of out))"
proof -
  let ?n = "max_kept p locations + 1"
  let ?out = "relabel p locations ?n"
  note ok = ids_convertibleD[OF assms]
  have run: "assign_ids p locations = Inr ?out"
    using assms by (rule assign_ids_relabel)
  have len: "length ?out = length locations"
    by (rule length_relabel)
  have rt: "roundtrip p (?n + fresh_before p locations i)" if "i < length locations" for i
    using ok(3) fresh_before_bound[OF that, of p] by simp
  have nth: "\<forall>i<length locations.
        if valid_id p (locations ! i) then ?out ! i = locations ! i
        else nat_str p (?n + fresh_before p locations i) =
               Inr (fresh_str p (?n + fresh_before p locations i)) \<and>
             ?out ! i =
               od_set (locations ! i) ''id''
                 (JStr (fresh_str p (?n + fresh_before p locations i)))"
    using rt by (simp add: relabel_nth roundtripD(1))
  have valid: "\<forall>l\<in>set ?out. valid_id p l \<and> int_ok p l"
    using ok(2,3) by (rule valid_id_relabel)
  have fresh: "\<forall>i<length locations. \<not> valid_id p (locations ! i) \<longrightarrow>
        max_kept p locations < id_num p (?out ! i) \<and>
        (\<forall>j<length locations. j \<noteq> i \<longrightarrow> id_of (?out ! j) \<noteq> id_of (?out ! i))"
  proof (intro allI impI conjI)
    fix i assume i: "i < length locations" "\<not> valid_id p (locations ! i)"
    then show "max_kept p locations < id_num p (?out ! i)"
      using rt[OF i(1)] by (simp add: relabel_nth id_num_fresh)
    fix j assume "j < length locations" "j \<noteq> i"
    with i ok(2,3) show "id_of (?out ! j) \<noteq> id_of (?out ! i)"
      by (intro fresh_id_differs) simp_all
  qed
  have uniq: "distinct (map id_of (filter (valid_id p) locations)) \<longrightarrow> distinct (map id_of ?out)"
  proof
    assume d: "distinct (map id_of (filter (valid_id p) locations))"
    have "\<forall>l\<in>set locations. valid_id p l \<longrightarrow> int_ok p l \<and> id_num p l < ?n"
      using id_num_le_max_kept[of _ locations p] ok(2) by (auto simp: less_Suc_eq_le)
    with d show "distinct (map id_of ?out)" using ok(3) by (rule distinct_relabel)
  qed
  from run len nth valid fresh uniq show ?thesis by blast
qed

theorem assign_ids_fresh_above_kept_witness:
  "assign_ids demo_prims
     [[(''id'', JStr ''5'')], [(''name'', JStr ''Acme Store'')], [(''id'', JStr ''x'')]] =
     Inr [[(''id'', JStr ''5'')], [(''name'', JStr ''Acme Store''), (''id'', JStr ''6'')],
          [(''id'', JStr ''7'')]] \<and>
   list_all (valid_id demo_prims)
     [[(''id'', JStr ''5'')], [(''name'', JStr ''Acme Store''), (''id'', JStr ''6'')],
      [(''id'', JStr ''7'')]] \<and>
   distinct (map id_of
     [[(''id'', JStr ''5'') :: string \<times> int json],
      [(''name'', JStr ''Acme Store''), (''id'', JStr ''6'')],
      [(''id'', JStr ''7'')]])"
proof -
  let ?locs = "[[(''id'', JStr ''5'')], [(''name'', JStr ''Acme Store'')], [(''id'', JStr ''x'')]]
    :: int location list"
  let ?res = "[[(''id'', JStr ''5'')], [(''name'', JStr ''Acme Store''), (''id'', JStr ''6'')],
          [(''id'', JStr ''7'')]] :: int location list"
  have v: "valid_id demo_prims [(''id'', JStr ''5'')]"
    "\<not> valid_id demo_prims [(''name'', JStr ''Acme Store'')]"
    "\<not> valid_id demo_prims [(''id'', JStr ''x'')]"
    by (simp_all add: demo_valid_id id_of_def od_get_def isdigit_examples superscript_two_def)
  have i: "int_ok demo_prims [(''id'', JStr ''5'')]"
    by (simp add: int_ok_def id_of_def od_get_def demo_prims_def demo_int_def isdigit_examples)
  have h: "ids_convertible demo_prims ?locs"
    by (simp add: ids_convertible_def v i id_of_def od_get_def list_all_iff demo_roundtrip)
  have d: "distinct (map id_of (filter (valid_id demo_prims) ?locs))"
    by (simp add: v)
  have s: "str_nat 6 = ''6''" "str_nat 7 = ''7''"
    by (simp_all add: str_nat.simps digit_char_def digit_chars_def)
  have p: "str_isdigit demo_prims = demo_isdigit" "str_int demo_prims = demo_int"
    "nat_str demo_prims = (\<lambda>n. Inr (str_nat n))"
    by (simp_all add: demo_prims_def)
  have run: "assign_ids demo_prims ?locs = Inr ?res"
    by (simp add: assign_ids_def od_get_def p demo_isdigit_def demo_int_def isdigit_examples
        superscript_two_def decimal_value_def digit_val_def s)
  from assign_ids_fresh_above_kept [OF h] d obtain out where
    out: "assign_ids demo_prims ?locs = Inr out" "\<forall>l\<in>set out. valid_id demo_prims l \<and> int_ok demo_prims l"
      "distinct (map id_of out)"
    by blast
  from out(1) run have "out = ?res" by simp
  with out(2,3) have "list_all (valid_id demo_prims) ?res" "distinct (map id_of ?res)"
    by (simp_all only: list_all_iff) blast
  with run show ?thesis by blast
qed

text \<open>
  Claim C2 as stated fails, in two ways. Two records that come with the same id keep it,
  so the ids of the batch are not unique after the assignment. And an id that \<^verbatim>\<open>isdigit\<close>
  accepts and \<^verbatim>\<open>int\<close> refuses, the superscript two, makes \<^verbatim>\<open>assign_ids\<close> raise
  \<^verbatim>\<open>ValueError\<close>: no record has an id assigned then.
\<close>

theorem assign_ids_keeps_duplicate_ids:
  "assign_ids demo_prims [[(''id'', JStr ''5'')], [(''id'', JStr ''5'')]] =
     Inr [[(''id'', JStr ''5'')], [(''id'', JStr ''5'')]] \<and>
   \<not> distinct (map id_of [[(''id'', JStr ''5'') :: string \<times> int json], [(''id'', JStr ''5'')]]) \<and>
   valid_id demo_prims [(''id'', JStr superscript_two)] \<and>
   assign_ids demo_prims [[(''id'', JStr superscript_two)]] = Inl ValueError"
  by (simp add: assign_ids_def od_get_def id_of_def valid_id_def demo_prims_def demo_isdigit_def
      demo_int_def isdigit_examples decimal_value_def digit_val_def)

section \<open>Claims about enrichment\<close>

text \<open>
  Claim C5. When the geocoding block has run without an exception and the find-place
  call then raises or returns no candidate, \<^verbatim>\<open>update_location_info\<close> returns a record
  whose address, city, state, postal, phone, web and hours1 fields are the values the
  record had on entry (the empty string for a field it did not have), and no
  place-details request is issued.
\<close>

theorem no_candidate_keeps_fields:
  assumes "geocode_block p g l st = (Inr l1, st1)"
    and "gmaps_find_place g (place_query p l) (world st1) = (response, w2)"
    and "no_candidate response"
  shows "\<exists>out st'. update_location_info p g l st = (Inr out, st') \<and>
     (\<forall>f\<in>set merged_fields. od_get out f dflt = od_get l f (JStr '''')) \<and>
     filter is_place (calls st') = filter is_place (calls st)"
proof -
  let ?st' = "issued st1 (FindPlace (place_query p l)) w2"
  from assms(2,3) have b: "place_block p g l l1 st1 = (l1, ?st')"
    by (rule place_block_no_candidate)
  with assms(1) have run: "update_location_info p g l st = (Inr (closing_block p l1), ?st')"
    by (rule update_location_info_eq)
  have fields: "\<forall>f\<in>set merged_fields. od_get (closing_block p l1) f dflt = od_get l f (JStr '''')"
  proof
    fix f assume "f \<in> set merged_fields"
    then have f: "f \<in> set EXPECTED_FIELDS" "f \<noteq> ''lat''" "f \<noteq> ''lng''" "f \<noteq> ''featured''"
      using merged_expected by blast+
    then have "od_get (closing_block p l1) f dflt = od_get l1 f (JStr '''')"
      by (simp add: od_get_closing_block)
    also from f(2,3) have "\<dots> = od_get l f (JStr '''')"
      by (rule geocode_block_frame[OF assms(1)])
    finally show "od_get (closing_block p l1) f dflt = od_get l f (JStr '''')" .
  qed
  have "filter is_place (calls ?st') = filter is_place (calls st)"
    using geocode_block_no_place[OF assms(1)] by (simp add: calls_issued)
  with run fields show ?thesis by blast
qed

lemma demo_skip_geocode:
  "geocode_block demo_prims demo_gmaps
     [(''name'', JStr ''Nowhere''), (''city'', JStr ''Austin''), (''state'', JStr ''TX''),
      (''address'', JStr ''1 Main St''), (''phone'', JStr ''555''), (''lat'', JStr ''1''),
      (''lng'', JStr ''2'')] start =
   (Inr [(''name'', JStr ''Nowhere''), (''city'', JStr ''Austin''), (''state'', JStr ''TX''),
      (''address'', JStr ''1 Main St''), (''phone'', JStr ''555''), (''lat'', JStr ''1''),
      (''lng'', JStr ''2'')], start)"
  by (simp add: geocode_block_def od_get_def)

theorem no_candidate_keeps_fields_witness:
  "\<exists>out st'.
     update_location_info demo_prims demo_gmaps
       [(''name'', JStr ''Nowhere''), (''city'', JStr ''Austin''), (''state'', JStr ''TX''),
        (''address'', JStr ''1 Main St''), (''phone'', JStr ''555''), (''lat'', JStr ''1''),
        (''lng'', JStr ''2'')] start = (Inr out, st') \<and>
     od_get out ''address'' JNull = JStr ''1 Main St'' \<and>
     od_get out ''city'' JNull = JStr ''Austin'' \<and>
     od_get out ''phone'' JNull = JStr ''555'' \<and>
     od_get out ''hours1'' JNull = JStr [] \<and>
     filter is_place (calls st') = []"
proof -
  let ?l = "[(''name'', JStr ''Nowhere''), (''city'', JStr ''Austin''), (''state'', JStr ''TX''),
        (''address'', JStr ''1 Main St''), (''phone'', JStr ''555''), (''lat'', JStr ''1''),
        (''lng'', JStr ''2'')] :: int location"
  have q: "gmaps_find_place demo_gmaps (place_query demo_prims ?l) (world start) = (Inr [], ())"
    by (simp add: demo_gmaps_def place_query_def od_get_def)
  have n: "no_candidate (Inr [])"
    by (simp add: no_candidate_def)
  from no_candidate_keeps_fields [OF demo_skip_geocode q n, of JNull]
  obtain out st' where run: "update_location_info demo_prims demo_gmaps ?l start = (Inr out, st')"
    and fields: "\<forall>f\<in>set merged_fields. od_get out f JNull = od_get ?l f (JStr [])"
    and calls: "filter is_place (calls st') = filter is_place (calls start)"
    by blast
  from fields have "od_get out ''address'' JNull = JStr ''1 Main St''"
    "od_get out ''city'' JNull = JStr ''Austin''" "od_get out ''phone'' JNull = JStr ''555''"
    "od_get out ''hours1'' JNull = JStr []"
    by (simp_all add: merged_fields_def od_get_def)
  moreover from calls have "filter is_place (calls st') = []"
    by (simp add: start_def)
  ultimately show ?thesis using run by blast
qed

text \<open>
  Claim C6. When the lat and lng of a record are both non-empty on entry,
  \<^verbatim>\<open>update_location_info\<close> returns, issues no geocode request, and the lat and lng of
  the result are \<^verbatim>\<open>str\<close> of the values on entry: the very same values when these are
  strings.
\<close>

theorem coordinates_present_no_geocode:
  assumes "truthy p (od_get l ''lat'' JNull)" and "truthy p (od_get l ''lng'' JNull)"
  shows "\<exists>out st'. update_location_info p g l st = (Inr out, st') \<and>
     filter is_geocode (calls st') = filter is_geocode (calls st) \<and>
     od_get out ''lat'' dflt = JStr (py_str p (od_get l ''lat'' JNull)) \<and>
     od_get out ''lng'' dflt = JStr (py_str p (od_get l ''lng'' JNull)) \<and>
     (is_str (od_get l ''lat'' JNull) \<longrightarrow> od_get out ''lat'' dflt = od_get l ''lat'' JNull) \<and>
     (is_str (od_get l ''lng'' JNull) \<longrightarrow> od_get out ''lng'' dflt = od_get l ''lng'' JNull)"
proof -
  from assms have g: "geocode_block p g l st = (Inr l, st)"
    by (rule geocode_block_skip)
  obtain l2 st2 where b: "place_block p g l l st = (l2, st2)"
    by (cases "place_block p g l l st")
  from g b have run: "update_location_info p g l st = (Inr (closing_block p l2), st2)"
    by (rule update_location_info_eq)
  from b have calls: "filter is_geocode (calls st2) = filter is_geocode (calls st)"
    by (rule place_block_no_geocode)
  have "od_get l2 ''lat'' (JStr '''') = od_get l ''lat'' (JStr '''')"
    by (rule place_block_frame[OF b]) simp
  with truthy_present[OF assms(1), of "JStr []"] have lat: "od_get (closing_block p l2) ''lat'' dflt = JStr (py_str p (od_get l ''lat'' JNull))"
    by (simp add: od_get_closing_block EXPECTED_FIELDS_def)
  have "od_get l2 ''lng'' (JStr '''') = od_get l ''lng'' (JStr '''')"
    by (rule place_block_frame[OF b]) simp
  with truthy_present[OF assms(2), of "JStr []"] have lng: "od_get (closing_block p l2) ''lng'' dflt = JStr (py_str p (od_get l ''lng'' JNull))"
    by (simp add: od_get_closing_block EXPECTED_FIELDS_def)
  have str: "is_str v \<Longrightarrow> JStr (py_str p v) = v" for v :: "'a json"
    by (cases v) auto
  from run calls lat lng str show ?thesis by auto
qed

theorem coordinates_present_no_geocode_witness:
  "\<exists>out st'.
     update_location_info demo_prims demo_gmaps
       [(''name'', JStr ''Acme Store''), (''city'', JStr ''Austin''), (''state'', JStr ''TX''),
        (''lat'', JStr ''30.2672''), (''lng'', JStr ''-97.7431'')] start = (Inr out, st') \<and>
     od_get out ''lat'' JNull = JStr ''30.2672'' \<and>
     od_get out ''lng'' JNull = JStr ''-97.7431'' \<and>
     filter is_geocode (calls st') = []"
proof -
  let ?l = "[(''name'', JStr ''Acme Store''), (''city'', JStr ''Austin''), (''state'', JStr ''TX''),
        (''lat'', JStr ''30.2672''), (''lng'', JStr ''-97.7431'')] :: int location"
  have lat: "truthy demo_prims (od_get ?l ''lat'' JNull)"
    and lng: "truthy demo_prims (od_get ?l ''lng'' JNull)"
    by (simp_all add: od_get_def)
  from coordinates_present_no_geocode [OF lat lng, of demo_gmaps start JNull]
  obtain out st' where run: "update_location_info demo_prims demo_gmaps ?l start = (Inr out, st')"
    and calls: "filter is_geocode (calls st') = filter is_geocode (calls start)"
    and keep: "is_str (od_get ?l ''lat'' JNull) \<longrightarrow> od_get out ''lat'' JNull = od_get ?l ''lat'' JNull"
      "is_str (od_get ?l ''lng'' JNull) \<longrightarrow> od_get out ''lng'' JNull = od_get ?l ''lng'' JNull"
    by blast
  from keep have "od_get out ''lat'' JNull = JStr ''30.2672''"
    "od_get out ''lng'' JNull = JStr ''-97.7431''"
    by (simp_all add: od_get_def)
  moreover from calls have "filter is_geocode (calls st') = []"
    by (simp add: start_def)
  ultimately show ?thesis using run by blast
qed

text \<open>
  Claim C8. In every record that \<^verbatim>\<open>update_location_info\<close> returns, lat and lng are
  strings, the empty string when the field is still missing or empty after the geocoding
  block; featured is \<^verbatim>\<open>"no"\<close> when it was missing or empty (or any other false value) on
  entry, and its value on entry otherwise.
\<close>

theorem closing_coerces_coordinates_and_featured:
  assumes "geocode_block p g l st = (Inr l1, st1)"
  shows "\<exists>out st'. update_location_info p g l st = (Inr out, st') \<and>
     is_str (od_get out ''lat'' dflt) \<and> is_str (od_get out ''lng'' dflt) \<and>
     (od_get l1 ''lat'' (JStr '''') = JStr '''' \<longrightarrow> od_get out ''lat'' dflt = JStr '''') \<and>
     (od_get l1 ''lng'' (JStr '''') = JStr '''' \<longrightarrow> od_get out ''lng'' dflt = JStr '''') \<and>
     (\<not> truthy p (od_get l ''featured'' JNull) \<longrightarrow> od_get out ''featured'' dflt = JStr ''no'') \<and>
     (truthy p (od_get l ''featured'' JNull) \<longrightarrow>
        od_get out ''featured'' dflt = od_get l ''featured'' JNull)"
proof -
  obtain l2 st2 where b: "place_block p g l l1 st1 = (l2, st2)"
    by (cases "place_block p g l l1 st1")
  from assms b have run: "update_location_info p g l st = (Inr (closing_block p l2), st2)"
    by (rule update_location_info_eq)
  have lat: "od_get l2 ''lat'' (JStr '''') = od_get l1 ''lat'' (JStr '''')"
    by (rule place_block_frame[OF b]) simp
  have lng: "od_get l2 ''lng'' (JStr '''') = od_get l1 ''lng'' (JStr '''')"
    by (rule place_block_frame[OF b]) simp
  have "od_get l2 ''featured'' v = od_get l1 ''featured'' v" for v
    by (rule place_block_frame[OF b]) simp
  moreover have "od_get l1 ''featured'' v = od_get l ''featured'' v" for v
    by (rule geocode_block_frame[OF assms]) simp_all
  ultimately have feat: "od_get l2 ''featured'' v = od_get l ''featured'' v" for v
    by simp
  have lat_str: "is_str (od_get (closing_block p l2) ''lat'' dflt)"
    and lng_str: "is_str (od_get (closing_block p l2) ''lng'' dflt)"
    by (simp_all add: od_get_closing_block EXPECTED_FIELDS_def)
  have lat_unset: "od_get (closing_block p l2) ''lat'' dflt = JStr []"
    if "od_get l1 ''lat'' (JStr []) = JStr []"
    using that lat by (simp add: od_get_closing_block EXPECTED_FIELDS_def)
  have lng_unset: "od_get (closing_block p l2) ''lng'' dflt = JStr []"
    if "od_get l1 ''lng'' (JStr []) = JStr []"
    using that lng by (simp add: od_get_closing_block EXPECTED_FIELDS_def)
  have no: "od_get (closing_block p l2) ''featured'' dflt = JStr ''no''"
    if "\<not> truthy p (od_get l ''featured'' JNull)"
    using that by (simp add: od_get_closing_block EXPECTED_FIELDS_def feat)
  have kept: "od_get (closing_block p l2) ''featured'' dflt = od_get l ''featured'' JNull"
    if "truthy p (od_get l ''featured'' JNull)"
    using that truthy_present[OF that, of "JStr []"]
    by (simp add: od_get_closing_block EXPECTED_FIELDS_def feat)
  from run lat_str lng_str lat_unset lng_unset no kept show ?thesis by blast
qed

theorem closing_coerces_coordinates_and_featured_witness:
  "\<exists>out st'.
     update_location_info demo_prims demo_gmaps [(''name'', JStr ''Nowhere'')] start =
       (Inr out, st') \<and>
     od_get out ''lat'' JNull = JStr [] \<and> od_get out ''lng'' JNull = JStr [] \<and>
     od_get out ''featured'' JNull = JStr ''no''"
proof -
  let ?l = "[(''name'', JStr ''Nowhere'')] :: int location"
  have g: "geocode_block demo_prims demo_gmaps ?l start =
      (Inr ?l, issued start (Geocode ''USA'') ())"
    by (simp add: geocode_block_def od_get_def py_join_def demo_prims_def demo_gmaps_def)
  from closing_coerces_coordinates_and_featured [OF g, of JNull]
  obtain out st' where run: "update_location_info demo_prims demo_gmaps ?l start = (Inr out, st')"
    and lat: "od_get ?l ''lat'' (JStr []) = JStr [] \<longrightarrow> od_get out ''lat'' JNull = JStr []"
    and lng: "od_get ?l ''lng'' (JStr []) = JStr [] \<longrightarrow> od_get out ''lng'' JNull = JStr []"
    and feat: "\<not> truthy demo_prims (od_get ?l ''featured'' JNull) \<longrightarrow>
        od_get out ''featured'' JNull = JStr ''no''"
    by blast
  from lat lng feat have "od_get out ''lat'' JNull = JStr []" "od_get out ''lng'' JNull = JStr []"
    "od_get out ''featured'' JNull = JStr ''no''"
    by (simp_all add: od_get_def)
  with run show ?thesis by blast
qed

text \<open>
  Claim C10. When lat or lng is empty on entry (so also when exactly one of them is),
  the address parts join to a string and the geocode call returns a non-empty list, both
  lat and lng of the result are the \<^verbatim>\<open>str\<close> of the rounded coordinates of the first
  candidate, whatever the record held before; one geocode request has been issued.
\<close>

theorem geocode_overwrites_both_coordinates:
  assumes "\<not> truthy p (od_get l ''lat'' JNull) \<or> \<not> truthy p (od_get l ''lng'' JNull)"
    and "py_join '', '' (full_address_parts p l) = Inr full_address"
    and "gmaps_geocode g full_address (world st) = (Inr ((lat, lng) # rest), w1)"
  shows "\<exists>out st'. update_location_info p g l st = (Inr out, st') \<and>
     od_get out ''lat'' dflt = JStr (str_other p (JNum (round10 p lat))) \<and>
     od_get out ''lng'' dflt = JStr (str_other p (JNum (round10 p lng))) \<and>
     filter is_geocode (calls st') = filter is_geocode (calls st) @ [Geocode full_address]"
proof -
  let ?l1 = "od_set (od_set l ''lat'' (JNum (round10 p lat))) ''lng'' (JNum (round10 p lng))"
  let ?st1 = "issued st (Geocode full_address) w1"
  from assms have g: "geocode_block p g l st = (Inr ?l1, ?st1)"
    by (auto simp: geocode_block_def full_address_parts_def)
  obtain l2 st2 where b: "place_block p g l ?l1 ?st1 = (l2, st2)"
    by (cases "place_block p g l ?l1 ?st1")
  from g b have run: "update_location_info p g l st = (Inr (closing_block p l2), st2)"
    by (rule update_location_info_eq)
  have "od_get l2 ''lat'' (JStr '''') = od_get ?l1 ''lat'' (JStr '''')"
    by (rule place_block_frame[OF b]) simp
  then have lat: "od_get (closing_block p l2) ''lat'' dflt = JStr (str_other p (JNum (round10 p lat)))"
    by (simp add: od_get_closing_block EXPECTED_FIELDS_def od_get_od_set)
  have "od_get l2 ''lng'' (JStr '''') = od_get ?l1 ''lng'' (JStr '''')"
    by (rule place_block_frame[OF b]) simp
  then have lng: "od_get (closing_block p l2) ''lng'' dflt = JStr (str_other p (JNum (round10 p lng)))"
    by (simp add: od_get_closing_block EXPECTED_FIELDS_def od_get_od_set)
  from place_block_no_geocode[OF b]
  have "filter is_geocode (calls st2) = filter is_geocode (calls st) @ [Geocode full_address]"
    by (simp add: calls_issued)
  with run lat lng show ?thesis by blast
qed

theorem geocode_overwrites_both_coordinates_witness:
  "truthy demo_prims
     (od_get [(''name'', JStr ''Acme Store''), (''city'', JStr ''Austin''),
              (''state'', JStr ''TX''), (''lat'', JStr ''1.5'')] ''lat'' JNull) \<and>
   \<not> truthy demo_prims
     (od_get [(''name'', JStr ''Acme Store''), (''city'', JStr ''Austin''),
              (''state'', JStr ''TX''), (''lat'', JStr ''1.5'')] ''lng'' JNull) \<and>
   (\<exists>out st'.
     update_location_info demo_prims demo_gmaps
       [(''name'', JStr ''Acme Store''), (''city'', JStr ''Austin''), (''state'', JStr ''TX''),
        (''lat'', JStr ''1.5'')] start = (Inr out, st') \<and>
     od_get out ''lat'' JNull = JStr ''30'' \<and>
     od_get out ''lng'' JNull = JStr ''-97'' \<and>
     filter is_geocode (calls st') = [Geocode ''Austin, TX, USA''])"
proof -
  let ?l = "[(''name'', JStr ''Acme Store''), (''city'', JStr ''Austin''), (''state'', JStr ''TX''),
        (''lat'', JStr ''1.5'')] :: int location"
  have lat: "truthy demo_prims (od_get ?l ''lat'' JNull)"
    and lng: "\<not> truthy demo_prims (od_get ?l ''lng'' JNull)"
    by (simp_all add: od_get_def)
  from lng have one: "\<not> truthy demo_prims (od_get ?l ''lat'' JNull) \<or>
      \<not> truthy demo_prims (od_get ?l ''lng'' JNull)" ..
  have a: "py_join '', '' (full_address_parts demo_prims ?l) = Inr ''Austin, TX, USA''"
    by (simp add: full_address_parts_def py_join_def od_get_def)
  have r: "gmaps_geocode demo_gmaps ''Austin, TX, USA'' (world start) =
      (Inr ((30, - 97) # [(31, - 98)]), ())"
    by (simp add: demo_gmaps_def)
  have s: "str_other demo_prims (JNum (round10 demo_prims 30)) = ''30''"
    "str_other demo_prims (JNum (round10 demo_prims (- 97))) = ''-97''"
    by (simp_all add: demo_prims_def str_nat.simps digit_char_def digit_chars_def)
  from geocode_overwrites_both_coordinates [OF one a r, of JNull]
  obtain out st' where run: "update_location_info demo_prims demo_gmaps ?l start = (Inr out, st')"
    and coords: "od_get out ''lat'' JNull = JStr (str_other demo_prims (JNum (round10 demo_prims 30)))"
      "od_get out ''lng'' JNull = JStr (str_other demo_prims (JNum (round10 demo_prims (- 97))))"
    and calls: "filter is_geocode (calls st') =
      filter is_geocode (calls start) @ [Geocode ''Austin, TX, USA'']"
    by blast
  from coords s have "od_get out ''lat'' JNull = JStr ''30''" "od_get out ''lng'' JNull = JStr ''-97''"
    by simp_all
  moreover from calls have "filter is_geocode (calls st') = [Geocode ''Austin, TX, USA'']"
    by (simp add: start_def)
  ultimately show ?thesis using run lat lng by blast
qed

text \<open>
  Claim C3. When the merge runs (a candidate with a non-empty place id was found and its
  details are a non-empty dict), each of address, city, state and postal of the result is
  the value that the address components give when that value is non-empty, and the value
  the record had on entry otherwise. The values that the components give are those
  described above: for each kind the name of the last component of the kind. The street
  address is the street number and the route joined by a space, an empty part being
  skipped.
\<close>

theorem merge_address_precedence:
  assumes "geocode_block p g l st = (Inr l1, st1)"
    and "find_place p g (od_get l ''name'' (JStr '''')) (od_get l ''city'' (JStr ''''))
           (od_get l ''state'' (JStr '''')) st1 = (Some place, st2)"
    and "place_id place = Some pid" and "pid \<noteq> []"
    and "get_place_details g pid st2 = (d, st3)" and "details_truthy d"
  shows "\<exists>out. update_location_info p g l st = (Inr out, st3) \<and>
     od_get out ''address'' dflt =
       (if street_number_of d = [] \<and> route_of d = [] then od_get l ''address'' (JStr '''')
        else if street_number_of d = [] then JStr (route_of d)
        else if route_of d = [] then JStr (street_number_of d)
        else JStr (street_number_of d @ '' '' @ route_of d)) \<and>
     od_get out ''city'' dflt =
       (if city_of d \<noteq> [] then JStr (city_of d) else od_get l ''city'' (JStr '''')) \<and>
     od_get out ''state'' dflt =
       (if state_of d \<noteq> [] then JStr (state_of d) else od_get l ''state'' (JStr '''')) \<and>
     od_get out ''postal'' dflt =
       (if postal_of d \<noteq> [] then JStr (postal_of d) else od_get l ''postal'' (JStr ''''))"
proof -
  let ?out = "closing_block p (merge_details l1 d)"
  have run: "update_location_info p g l st = (Inr ?out, st3)"
    using assms(1-6) by (rule update_location_info_merged)
  have ex: "parse_components (case address_components d of None \<Rightarrow> [] | Some cs \<Rightarrow> cs)
      ('''', '''', '''', '''', '''') =
      (street_number_of d, route_of d, city_of d, state_of d, postal_of d)"
    using extracted_eq[of d] by (simp add: extracted_def)
  have "od_get ?out ''address'' dflt =
      str_or (street_address_of (street_number_of d) (route_of d)) (od_get l ''address'' (JStr ''''))"
    using merged_field_result(1)[OF assms(1), of "''address''" d dflt]
      merged_field_result(2)[OF assms(1), of "''address''"]
    by (simp add: merged_fields_def od_get_merge_details[OF ex])
  then have address: "od_get ?out ''address'' dflt =
       (if street_number_of d = [] \<and> route_of d = [] then od_get l ''address'' (JStr '''')
        else if street_number_of d = [] then JStr (route_of d)
        else if route_of d = [] then JStr (street_number_of d)
        else JStr (street_number_of d @ '' '' @ route_of d))"
    by (simp add: str_or_def street_address_of_cases)
  have city: "od_get ?out ''city'' dflt =
      (if city_of d \<noteq> [] then JStr (city_of d) else od_get l ''city'' (JStr ''''))"
    using merged_field_result(1)[OF assms(1), of "''city''" d dflt]
      merged_field_result(2)[OF assms(1), of "''city''"]
    by (simp add: merged_fields_def od_get_merge_details[OF ex] str_or_def)
  have state: "od_get ?out ''state'' dflt =
      (if state_of d \<noteq> [] then JStr (state_of d) else od_get l ''state'' (JStr ''''))"
    using merged_field_result(1)[OF assms(1), of "''state''" d dflt]
      merged_field_result(2)[OF assms(1), of "''state''"]
    by (simp add: merged_fields_def od_get_merge_details[OF ex] str_or_def)
  have postal: "od_get ?out ''postal'' dflt =
      (if postal_of d \<noteq> [] then JStr (postal_of d) else od_get l ''postal'' (JStr ''''))"
    using merged_field_result(1)[OF assms(1), of "''postal''" d dflt]
      merged_field_result(2)[OF assms(1), of "''postal''"]
    by (simp add: merged_fields_def od_get_merge_details[OF ex] str_or_def)
  from run address city state postal show ?thesis by blast
qed

theorem merge_address_precedence_witness:
  "(\<exists>out st'.
     update_location_info demo_prims demo_gmaps
       [(''name'', JStr ''Acme Store''), (''city'', JStr ''Round Rock''),
        (''state'', JStr ''Texas''), (''address'', JStr ''old''), (''postal'', JStr []),
        (''lat'', JStr ''30.2''), (''lng'', JStr ''-97.7'')] start = (Inr out, st') \<and>
     od_get out ''address'' JNull = JStr ''100 Congress Avenue'' \<and>
     od_get out ''city'' JNull = JStr ''Austin'' \<and>
     od_get out ''state'' JNull = JStr ''TX'' \<and>
     od_get out ''postal'' JNull = JStr ''78701'') \<and>
   (\<exists>out st'.
     update_location_info demo_prims demo_gmaps
       [(''name'', JStr ''Bare Store''), (''city'', JStr ''Austin''), (''state'', JStr ''TX''),
        (''address'', JStr ''5 Elm St''), (''postal'', JStr ''78702''),
        (''lat'', JStr ''30.2''), (''lng'', JStr ''-97.7'')] start = (Inr out, st') \<and>
     od_get out ''address'' JNull = JStr ''5 Elm St'' \<and>
     od_get out ''city'' JNull = JStr ''Austin'' \<and>
     od_get out ''state'' JNull = JStr ''TX'' \<and>
     od_get out ''postal'' JNull = JStr ''78702'')"
proof -
  let ?a = "[(''name'', JStr ''Acme Store''), (''city'', JStr ''Round Rock''),
        (''state'', JStr ''Texas''), (''address'', JStr ''old''), (''postal'', JStr []),
        (''lat'', JStr ''30.2''), (''lng'', JStr ''-97.7'')] :: int location"
  let ?b = "[(''name'', JStr ''Bare Store''), (''city'', JStr ''Austin''), (''state'', JStr ''TX''),
        (''address'', JStr ''5 Elm St''), (''postal'', JStr ''78702''),
        (''lat'', JStr ''30.2''), (''lng'', JStr ''-97.7'')] :: int location"
  let ?c3 = "\<lparr>place_id = Some ''P3'', candidate_address = None, candidate_hours = None\<rparr>"
  let ?c2 = "\<lparr>place_id = Some ''P2'', candidate_address = None, candidate_hours = None\<rparr>"
  have ga: "geocode_block demo_prims demo_gmaps ?a start = (Inr ?a, start)"
    and gb: "geocode_block demo_prims demo_gmaps ?b start = (Inr ?b, start)"
    by (simp_all add: geocode_block_def od_get_def)
  have fa: "find_place demo_prims demo_gmaps (od_get ?a ''name'' (JStr [])) (od_get ?a ''city'' (JStr []))
      (od_get ?a ''state'' (JStr [])) start =
      (Some ?c3, issued start (FindPlace ''Acme Store in Round Rock, Texas'') ())"
    by (simp add: find_place_def demo_gmaps_def od_get_def)
  have fb: "find_place demo_prims demo_gmaps (od_get ?b ''name'' (JStr [])) (od_get ?b ''city'' (JStr []))
      (od_get ?b ''state'' (JStr [])) start =
      (Some ?c2, issued start (FindPlace ''Bare Store in Austin, TX'') ())"
    by (simp add: find_place_def demo_gmaps_def od_get_def)
  have pa: "place_id ?c3 = Some ''P3''" "''P3'' \<noteq> []"
    and pb: "place_id ?c2 = Some ''P2''" "''P2'' \<noteq> []"
    by simp_all
  have da: "get_place_details demo_gmaps ''P3''
        (issued start (FindPlace ''Acme Store in Round Rock, Texas'') ()) =
      (full_details,
       issued (issued start (FindPlace ''Acme Store in Round Rock, Texas'') ()) (Place ''P3'') ())"
    "details_truthy full_details"
    by (simp_all add: get_place_details_def demo_gmaps_def details_truthy_def full_details_def)
  have db: "get_place_details demo_gmaps ''P2''
        (issued start (FindPlace ''Bare Store in Austin, TX'') ()) =
      (bare_details,
       issued (issued start (FindPlace ''Bare Store in Austin, TX'') ()) (Place ''P2'') ())"
    "details_truthy bare_details"
    by (simp_all add: get_place_details_def demo_gmaps_def details_truthy_def bare_details_def)
  from merge_address_precedence [OF ga fa pa da, of JNull]
  obtain out where "update_location_info demo_prims demo_gmaps ?a start =
      (Inr out, issued (issued start (FindPlace ''Acme Store in Round Rock, Texas'') ())
         (Place ''P3'') ())"
    and "od_get out ''address'' JNull = JStr ''100 Congress Avenue''"
    and "od_get out ''city'' JNull = JStr ''Austin''"
    and "od_get out ''state'' JNull = JStr ''TX''"
    and "od_get out ''postal'' JNull = JStr ''78701''"
    by (auto simp: full_details_address)
  then have a: "\<exists>out st'. update_location_info demo_prims demo_gmaps ?a start = (Inr out, st') \<and>
     od_get out ''address'' JNull = JStr ''100 Congress Avenue'' \<and>
     od_get out ''city'' JNull = JStr ''Austin'' \<and>
     od_get out ''state'' JNull = JStr ''TX'' \<and>
     od_get out ''postal'' JNull = JStr ''78701''"
    by blast
  from merge_address_precedence [OF gb fb pb db, of JNull]
  obtain out where "update_location_info demo_prims demo_gmaps ?b start =
      (Inr out, issued (issued start (FindPlace ''Bare Store in Austin, TX'') ())
         (Place ''P2'') ())"
    and "od_get out ''address'' JNull = JStr ''5 Elm St''"
    and "od_get out ''city'' JNull = JStr ''Austin''"
    and "od_get out ''state'' JNull = JStr ''TX''"
    and "od_get out ''postal'' JNull = JStr ''78702''"
    by (auto simp: bare_details_address od_get_def)
  then have b: "\<exists>out st'. update_location_info demo_prims demo_gmaps ?b start = (Inr out, st') \<and>
     od_get out ''address'' JNull = JStr ''5 Elm St'' \<and>
     od_get out ''city'' JNull = JStr ''Austin'' \<and>
     od_get out ''state'' JNull = JStr ''TX'' \<and>
     od_get out ''postal'' JNull = JStr ''78702''"
    by blast
  from a b show ?thesis by blast
qed

text \<open>
  Claim C4, as amended. When the merge runs, phone and web of the result are the values
  under \<^verbatim>\<open>formatted_phone_number\<close> and \<^verbatim>\<open>website\<close> when the details have these keys
  (whatever the values, the empty string too) and the values on entry otherwise; hours1 is
  the weekday text lines joined by newlines when the details have such a list, and the
  value on entry when the weekday text of the details is not a list; hours2 and hours3
  are the values on entry, and the merge does not write them.
\<close>

theorem merge_phone_web_hours:
  assumes "geocode_block p g l st = (Inr l1, st1)"
    and "find_place p g (od_get l ''name'' (JStr '''')) (od_get l ''city'' (JStr ''''))
           (od_get l ''state'' (JStr '''')) st1 = (Some place, st2)"
    and "place_id place = Some pid" and "pid \<noteq> []"
    and "get_place_details g pid st2 = (d, st3)" and "details_truthy d"
  shows "\<exists>out. update_location_info p g l st = (Inr out, st3) \<and>
     od_get out ''phone'' dflt =
       (case formatted_phone_number d of
          Some v \<Rightarrow> JStr v | None \<Rightarrow> od_get l ''phone'' (JStr '''')) \<and>
     od_get out ''web'' dflt =
       (case website d of Some v \<Rightarrow> JStr v | None \<Rightarrow> od_get l ''web'' (JStr '''')) \<and>
     (\<forall>ls. opening_hours d = Some (Some (Lines ls)) \<longrightarrow>
        od_get out ''hours1'' dflt = JStr (join [CHR 0x0A] ls)) \<and>
     (opening_hours d = Some (Some NotAList) \<longrightarrow>
        od_get out ''hours1'' dflt = od_get l ''hours1'' (JStr '''')) \<and>
     od_get out ''hours2'' dflt = od_get l ''hours2'' (JStr '''') \<and>
     od_get out ''hours3'' dflt = od_get l ''hours3'' (JStr '''') \<and>
     od_get (merge_details l1 d) ''hours2'' dflt = od_get l1 ''hours2'' dflt \<and>
     od_get (merge_details l1 d) ''hours3'' dflt = od_get l1 ''hours3'' dflt"
proof -
  let ?out = "closing_block p (merge_details l1 d)"
  have run: "update_location_info p g l st = (Inr ?out, st3)"
    using assms by (rule update_location_info_merged)
  obtain street_number route city state postal where
    ex: "parse_components (case address_components d of None \<Rightarrow> [] | Some cs \<Rightarrow> cs)
      ('''', '''', '''', '''', '''') = (street_number, route, city, state, postal)"
    by (metis prod_cases5)
  have phone: "od_get ?out ''phone'' dflt =
       (case formatted_phone_number d of
          Some v \<Rightarrow> JStr v | None \<Rightarrow> od_get l ''phone'' (JStr ''''))"
    using merged_field_result(1)[OF assms(1), of "''phone''" d dflt] merged_field_result(2)[OF assms(1), of "''phone''"]
    by (simp add: merged_fields_def od_get_merge_details[OF ex]
        split: option.splits weekday_text.splits)
  have web: "od_get ?out ''web'' dflt =
       (case website d of Some v \<Rightarrow> JStr v | None \<Rightarrow> od_get l ''web'' (JStr ''''))"
    using merged_field_result(1)[OF assms(1), of "''web''" d dflt] merged_field_result(2)[OF assms(1), of "''web''"]
    by (simp add: merged_fields_def od_get_merge_details[OF ex]
        split: option.splits weekday_text.splits)
  have h1: "od_get ?out ''hours1'' dflt =
       (case weekday_text_of d of
          Lines ls \<Rightarrow> JStr (join [CHR 0x0A] ls)
        | NotAList \<Rightarrow> od_get l ''hours1'' (JStr ''''))"
    using merged_field_result(1)[OF assms(1), of "''hours1''" d dflt] merged_field_result(2)[OF assms(1), of "''hours1''"]
    by (simp add: merged_fields_def od_get_merge_details[OF ex]
        split: option.splits weekday_text.splits)
  have lines: "\<forall>ls. opening_hours d = Some (Some (Lines ls)) \<longrightarrow>
        od_get ?out ''hours1'' dflt = JStr (join [CHR 0x0A] ls)"
    by (simp add: h1 weekday_text_of_def)
  have notlist: "opening_hours d = Some (Some NotAList) \<longrightarrow>
        od_get ?out ''hours1'' dflt = od_get l ''hours1'' (JStr '''')"
    by (simp add: h1 weekday_text_of_def)
  have h2: "od_get ?out ''hours2'' dflt = od_get l ''hours2'' (JStr '''')"
    using run by (rule update_location_info_untouched) (simp add: untouched_fields_def)
  have h3: "od_get ?out ''hours3'' dflt = od_get l ''hours3'' (JStr '''')"
    using run by (rule update_location_info_untouched) (simp add: untouched_fields_def)
  have m2: "od_get (merge_details l1 d) ''hours2'' dflt = od_get l1 ''hours2'' dflt"
    by (rule od_get_merge_details_other) simp
  have m3: "od_get (merge_details l1 d) ''hours3'' dflt = od_get l1 ''hours3'' dflt"
    by (rule od_get_merge_details_other) simp
  from run phone web lines notlist h2 h3 m2 m3 show ?thesis by blast
qed

theorem merge_phone_web_hours_witness:
  "\<exists>out st'.
     update_location_info demo_prims demo_gmaps
       [(''name'', JStr ''Acme Store''), (''city'', JStr ''Austin''), (''state'', JStr ''TX''),
        (''address'', JStr ''old''), (''postal'', JStr ''78701''), (''lat'', JStr ''30.2''),
        (''lng'', JStr ''-97.7''), (''phone'', JStr ''555-0199''), (''web'', JStr ''acme.example''),
        (''hours2'', JStr ''by appointment'')] start = (Inr out, st') \<and>
     od_get out ''phone'' JNull = JStr ''(512) 555-0100'' \<and>
     od_get out ''web'' JNull = JStr ''acme.example'' \<and>
     od_get out ''hours1'' JNull = JStr (''Monday: 9-5'' @ [CHR 0x0A] @ ''Tuesday: 9-5'') \<and>
     od_get out ''hours2'' JNull = JStr ''by appointment'' \<and>
     od_get out ''hours3'' JNull = JStr []"
proof -
  let ?l = "[(''name'', JStr ''Acme Store''), (''city'', JStr ''Austin''), (''state'', JStr ''TX''),
        (''address'', JStr ''old''), (''postal'', JStr ''78701''), (''lat'', JStr ''30.2''),
        (''lng'', JStr ''-97.7''), (''phone'', JStr ''555-0199''), (''web'', JStr ''acme.example''),
        (''hours2'', JStr ''by appointment'')] :: int location"
  have f: "find_place demo_prims demo_gmaps (od_get ?l ''name'' (JStr [])) (od_get ?l ''city'' (JStr []))
      (od_get ?l ''state'' (JStr [])) start =
    (Some \<lparr>place_id = Some ''P1'', candidate_address = None, candidate_hours = None\<rparr>,
     issued start (FindPlace ''Acme Store in Austin, TX'') ())"
    using demo_acme_find_place by (simp add: od_get_def)
  have pid: "place_id \<lparr>place_id = Some ''P1'', candidate_address = None, candidate_hours = None\<rparr> = Some ''P1''"
    "''P1'' \<noteq> []"
    by simp_all
  have d: "formatted_phone_number demo_details = Some ''(512) 555-0100''"
    "website demo_details = None"
    "opening_hours demo_details = Some (Some (Lines [''Monday: 9-5'', ''Tuesday: 9-5'']))"
    by (simp_all add: demo_details_def)
  from merge_phone_web_hours [OF demo_acme_geocode f pid demo_acme_details(1,2), of JNull]
  obtain out where "update_location_info demo_prims demo_gmaps ?l start =
      (Inr out, issued (issued start (FindPlace ''Acme Store in Austin, TX'') ()) (Place ''P1'') ())"
    and "od_get out ''phone'' JNull = JStr ''(512) 555-0100''"
    and "od_get out ''web'' JNull = JStr ''acme.example''"
    and "od_get out ''hours1'' JNull = JStr (''Monday: 9-5'' @ [CHR 0x0A] @ ''Tuesday: 9-5'')"
    and "od_get out ''hours2'' JNull = JStr ''by appointment''"
    and "od_get out ''hours3'' JNull = JStr []"
    by (auto simp: od_get_def d)
  then show ?thesis by blast
qed

text \<open>
  Claim C4 as stated fails. The details of the place \<^verbatim>\<open>P2\<close> hold an empty phone number
  and no opening hours; the phone and the hours1 of the record are overwritten by the
  empty string all the same.
\<close>

theorem merge_overwrites_phone_and_hours:
  "formatted_phone_number bare_details = Some [] \<and> opening_hours bare_details = None \<and>
   update_location_info demo_prims demo_gmaps
     [(''name'', JStr ''Bare Store''), (''city'', JStr ''Austin''), (''state'', JStr ''TX''),
      (''lat'', JStr ''30.2''), (''lng'', JStr ''-97.7''), (''phone'', JStr ''555-0199''),
      (''hours1'', JStr ''Monday: 9-5'')] start =
   (Inr [(''id'', JStr []), (''name'', JStr ''Bare Store''), (''lat'', JStr ''30.2''),
         (''lng'', JStr ''-97.7''), (''category'', JStr []), (''address'', JStr []),
         (''address2'', JStr []), (''city'', JStr ''Austin''), (''state'', JStr ''TX''),
         (''postal'', JStr []), (''phone'', JStr []), (''web'', JStr []), (''hours1'', JStr []),
         (''hours2'', JStr []), (''hours3'', JStr []), (''featured'', JStr ''no''),
         (''features'', JStr []), (''date'', JStr [])],
    \<lparr>world = (), calls = [FindPlace ''Bare Store in Austin, TX'', Place ''P2'']\<rparr>)"
  by (simp add: demo_eval)

section \<open>Claims about the whole run\<close>

text \<open>
  Claim C1. Whatever the upload, every record of a download that the run produces has
  exactly the eighteen canonical fields in the canonical order. When the upload is a
  list of objects, the download has one record for each of them, whatever fields it had
  and in whatever order, and the fields that no step writes after normalisation (name,
  category, address2, hours2, hours3, features, date) hold the value of the input or,
  when the input lacks the field, the empty string, which is what normalisation gives
  every field. The download is produced, the button pressed, for every list of objects
  whose values are strings and on whose ids \<^verbatim>\<open>int\<close> and \<^verbatim>\<open>str\<close> raise nothing. Any record
  that \<^verbatim>\<open>update_location_info\<close> returns, on any input, has the canonical fields in order.
\<close>

theorem pipeline_output_canonical:
  "(download (main p g (Some file) button w) = Some out \<longrightarrow>
      (\<forall>r\<in>set out. map fst r = EXPECTED_FIELDS)) \<and>
   (json_load p file = Inr (JArr (map JObj records)) \<and>
    download (main p g (Some file) button w) = Some out \<longrightarrow>
      length out = length records \<and>
      (\<forall>i<length records. \<forall>f\<in>set untouched_fields.
         od_get (out ! i) f JNull = od_get (records ! i) f (JStr ''''))) \<and>
   (json_load p file = Inr (JArr (map JObj records)) \<and> list_all string_valued records \<and>
    ids_convertible p (map ordered records) \<longrightarrow>
      (\<exists>res. download (main p g (Some file) True w) = Some res \<and>
         raised (main p g (Some file) True w) = None)) \<and>
   preprocess_locations (JArr (map JObj records)) = Inr (map ordered records) \<and>
   (\<forall>r\<in>set records. map fst (ordered r) = EXPECTED_FIELDS \<and>
      (\<forall>f\<in>set EXPECTED_FIELDS. od_get (ordered r) f JNull = od_get r f (JStr ''''))) \<and>
   (update_location_info p g l st = (Inr u, st') \<longrightarrow> map fst u = EXPECTED_FIELDS) \<and>
   length EXPECTED_FIELDS = 18 \<and> distinct EXPECTED_FIELDS"
proof -
  have pre: "preprocess_locations (JArr (map JObj records)) = Inr (map ordered records)"
    by (rule preprocess_locations_objects)
  have keys: "\<forall>r\<in>set out. map fst r = EXPECTED_FIELDS"
    if "download (main p g (Some file) button w) = Some out"
  proof -
    from main_download[OF that] obtain locs' st2 where
      "process_locations p g locs' \<lparr>world = w, calls = []\<rparr> = (Inr out, st2)" by blast
    from process_locations_canonical[OF this] show ?thesis
      by (auto simp: list_all2_conv_all_nth in_set_conv_nth)
  qed
  have carried: "length out = length records \<and>
      (\<forall>i<length records. \<forall>f\<in>set untouched_fields.
         od_get (out ! i) f JNull = od_get (records ! i) f (JStr ''''))"
    if load: "json_load p file = Inr (JArr (map JObj records))"
      and d: "download (main p g (Some file) button w) = Some out"
  proof -
    from main_download[OF d] load pre obtain locs' st2 where
      ids: "assign_ids p (map ordered records) = Inr locs'"
      and run: "process_locations p g locs' \<lparr>world = w, calls = []\<rparr> = (Inr out, st2)"
      by auto
    note rel1 = assign_ids_carries[OF ids]
    note rel2 = process_locations_canonical[OF run]
    from rel1 rel2 have len: "length out = length records" "length locs' = length records"
      by (auto dest!: list_all2_lengthD)
    have "od_get (out ! i) f JNull = od_get (records ! i) f (JStr '''')"
      if i: "i < length records" and f: "f \<in> set untouched_fields" for i f
    proof -
      from f have fe: "f \<in> set EXPECTED_FIELDS" and fid: "f \<noteq> ''id''"
        by (auto simp: untouched_fields_def EXPECTED_FIELDS_def)
      from rel2 i len f have "od_get (out ! i) f JNull = od_get (locs' ! i) f (JStr '''')"
        by (auto simp: list_all2_conv_all_nth)
      also from rel1 i fid have "\<dots> = od_get (map ordered records ! i) f (JStr '''')"
        by (auto simp: list_all2_conv_all_nth)
      also from i fe have "\<dots> = od_get (records ! i) f (JStr '''')"
        by (simp add: od_get_ordered)
      finally show ?thesis .
    qed
    with len show ?thesis by blast
  qed
  have total: "\<exists>res. download (main p g (Some file) True w) = Some res \<and>
         raised (main p g (Some file) True w) = None"
    if load: "json_load p file = Inr (JArr (map JObj records))"
      and sv: "list_all string_valued records"
      and conv: "ids_convertible p (map ordered records)"
  proof -
    let ?locs0 = "map ordered records"
    from conv have ids: "assign_ids p ?locs0 = Inr (relabel p ?locs0 (max_kept p ?locs0 + 1))"
      by (rule assign_ids_relabel)
    from sv have "list_all string_valued ?locs0"
      by (simp add: list_all_iff string_valued_ordered)
    with ids have "list_all string_valued (relabel p ?locs0 (max_kept p ?locs0 + 1))"
      by (rule assign_ids_string_valued)
    from process_locations_returns[OF this, of p g "\<lparr>world = w, calls = []\<rparr>"]
    obtain res st2 where
      "process_locations p g (relabel p ?locs0 (max_kept p ?locs0 + 1)) \<lparr>world = w, calls = []\<rparr> =
        (Inr res, st2)" by blast
    then have "main p g (Some file) True w =
      \<lparr>messages = [Loaded (length ?locs0), Updated], download = Some res,
       requests = calls st2, raised = None\<rparr>"
      using ids by (simp add: main_def load pre)
    then show ?thesis by simp
  qed
  have norm: "\<forall>r\<in>set records. map fst (ordered r) = EXPECTED_FIELDS \<and>
        (\<forall>f\<in>set EXPECTED_FIELDS. od_get (ordered r) f JNull = od_get r f (JStr ''''))"
    by (simp add: map_fst_ordered od_get_ordered)
  have upd: "update_location_info p g l st = (Inr u, st') \<longrightarrow> map fst u = EXPECTED_FIELDS"
    by (auto dest: update_location_info_fields)
  from keys carried total pre norm upd show ?thesis
    by (simp add: length_EXPECTED_FIELDS distinct_EXPECTED_FIELDS)
qed

theorem pipeline_output_canonical_witness:
  "\<exists>out. download (main demo_prims demo_gmaps (Some ''acme'') True ()) = Some out \<and>
     length out = 1 \<and> map fst (out ! 0) = EXPECTED_FIELDS \<and>
     od_get (out ! 0) ''name'' JNull = JStr ''Acme Store'' \<and>
     od_get (out ! 0) ''category'' JNull = JStr [] \<and>
     od_get (out ! 0) ''date'' JNull = JStr []"
proof -
  let ?records = "[[(''name'', JStr ''Acme Store''), (''city'', JStr ''Austin''),
      (''state'', JStr ''TX'')]] :: int location list"
  have sv: "list_all string_valued ?records"
    by (simp add: string_valued_def)
  have oid: "id_of (ordered (?records ! 0)) = JStr []"
    by (simp add: id_of_def ordered_def EXPECTED_FIELDS_def od_get_def)
  then have nv: "\<not> valid_id demo_prims (ordered (?records ! 0))"
    by (simp add: demo_valid_id isdigit_examples superscript_two_def)
  have conv: "ids_convertible demo_prims (map ordered ?records)"
    using nv oid by (simp add: ids_convertible_def list_all_iff demo_roundtrip)
  from pipeline_output_canonical
    [of demo_prims demo_gmaps "''acme''" _ "()" _ ?records]
    demo_load_examples(1) sv conv
  obtain out where d: "download (main demo_prims demo_gmaps (Some ''acme'') True ()) = Some out"
    by blast
  from pipeline_output_canonical
    [of demo_prims demo_gmaps "''acme''" True "()" out ?records]
    demo_load_examples(1) d
  have keys: "\<forall>r\<in>set out. map fst r = EXPECTED_FIELDS"
    and len: "length out = length ?records"
    and carried: "\<forall>i<length ?records. \<forall>f\<in>set untouched_fields.
        od_get (out ! i) f JNull = od_get (?records ! i) f (JStr [])"
    by blast+
  from len have one: "length out = 1" by simp
  then have "out ! 0 \<in> set out" by simp
  with keys have k: "map fst (out ! 0) = EXPECTED_FIELDS" by blast
  from carried have "od_get (out ! 0) ''name'' JNull = JStr ''Acme Store''"
    "od_get (out ! 0) ''category'' JNull = JStr []" "od_get (out ! 0) ''date'' JNull = JStr []"
    by (simp_all add: untouched_fields_def od_get_def)
  with d one k show ?thesis by blast
qed

text \<open>
  Claim C7, as amended. An upload on which \<^verbatim>\<open>json.load\<close> raises \<^verbatim>\<open>JSONDecodeError\<close> makes
  the run show the decoding error and nothing else: no request to the remote service, no
  download. Any other exception of \<^verbatim>\<open>json.load\<close> (\<^verbatim>\<open>UnicodeDecodeError\<close> for a file that
  is not UTF-8 text, for one) leaves \<^verbatim>\<open>main\<close> before any message, request or download.
  So does a \<^verbatim>\<open>TypeError\<close> or an \<^verbatim>\<open>AttributeError\<close> when the upload decodes to something
  other than a list of objects, the empty string and the empty object apart: these two
  are processed as the empty list is.
\<close>

theorem malformed_upload_outcome:
  "(json_load p file = Inl JSONDecodeError \<longrightarrow>
      main p g (Some file) button w =
        \<lparr>messages = [Error_decoding], download = None, requests = [], raised = None\<rparr>) \<and>
   (json_load p file = Inl e \<and> e \<noteq> JSONDecodeError \<longrightarrow>
      main p g (Some file) button w =
        \<lparr>messages = [], download = None, requests = [], raised = Some e\<rparr>) \<and>
   (json_load p file = Inr v \<and> \<not> list_of_objects v \<and> v \<noteq> JStr [] \<and> v \<noteq> JObj [] \<longrightarrow>
      (\<exists>e. (e = TypeError \<or> e = AttributeError) \<and>
         main p g (Some file) button w =
           \<lparr>messages = [], download = None, requests = [], raised = Some e\<rparr>)) \<and>
   (json_load p file = Inr v \<and> (v = JStr [] \<or> v = JObj []) \<longrightarrow>
      main p g (Some file) button w =
        \<lparr>messages = (if button then [Loaded 0, Updated] else [Loaded 0]),
         download = (if button then Some [] else None), requests = [], raised = None\<rparr>)"
proof (intro conjI impI)
  assume "json_load p file = Inl JSONDecodeError"
  then show "main p g (Some file) button w =
        \<lparr>messages = [Error_decoding], download = None, requests = [], raised = None\<rparr>"
    by (simp add: main_def except_clause_def)
next
  assume "json_load p file = Inl e \<and> e \<noteq> JSONDecodeError"
  then show "main p g (Some file) button w =
        \<lparr>messages = [], download = None, requests = [], raised = Some e\<rparr>"
    by (simp add: main_def except_clause_def)
next
  assume a: "json_load p file = Inr v \<and> \<not> list_of_objects v \<and> v \<noteq> JStr [] \<and> v \<noteq> JObj []"
  then have "preprocess_locations v = Inl TypeError \<or> preprocess_locations v = Inl AttributeError"
    by (intro preprocess_locations_fails) simp_all
  with a show "\<exists>e. (e = TypeError \<or> e = AttributeError) \<and>
         main p g (Some file) button w =
           \<lparr>messages = [], download = None, requests = [], raised = Some e\<rparr>"
    by (auto simp: main_def except_clause_def)
next
  assume "json_load p file = Inr v \<and> (v = JStr [] \<or> v = JObj [])"
  then show "main p g (Some file) button w =
        \<lparr>messages = (if button then [Loaded 0, Updated] else [Loaded 0]),
         download = (if button then Some [] else None), requests = [], raised = None\<rparr>"
    by (auto simp: main_def preprocess_locations_def assign_ids_def)
qed

theorem malformed_upload_outcome_witness:
  "main demo_prims demo_gmaps (Some ''{name: Acme'') True () =
     \<lparr>messages = [Error_decoding], download = None, requests = [], raised = None\<rparr> \<and>
   main demo_prims demo_gmaps (Some [CHR 0xE9]) True () =
     \<lparr>messages = [], download = None, requests = [], raised = Some UnicodeDecodeError\<rparr> \<and>
   messages (main demo_prims demo_gmaps (Some ''[1]'') True ()) = [] \<and>
   download (main demo_prims demo_gmaps (Some ''[1]'') True ()) = None \<and>
   requests (main demo_prims demo_gmaps (Some ''[1]'') True ()) = [] \<and>
   raised (main demo_prims demo_gmaps (Some ''[1]'') True ()) \<noteq> None \<and>
   main demo_prims demo_gmaps (Some [CHR 0x22, CHR 0x22]) False () =
     \<lparr>messages = [Loaded 0], download = None, requests = [], raised = None\<rparr>"
proof -
  from malformed_upload_outcome
      [of demo_prims "''{name: Acme''" demo_gmaps True "()"]
    demo_load_examples(4)
  have a: "main demo_prims demo_gmaps (Some ''{name: Acme'') True () =
     \<lparr>messages = [Error_decoding], download = None, requests = [], raised = None\<rparr>"
    by blast
  have "UnicodeDecodeError \<noteq> JSONDecodeError" by simp
  with malformed_upload_outcome
      [of demo_prims "[CHR 0xE9]" demo_gmaps True "()" UnicodeDecodeError]
    demo_load_examples(5)
  have u: "main demo_prims demo_gmaps (Some [CHR 0xE9]) True () =
     \<lparr>messages = [], download = None, requests = [], raised = Some UnicodeDecodeError\<rparr>"
    by blast
  have "\<not> list_of_objects (JArr [JNum (1::int)])" "JArr [JNum (1::int)] \<noteq> JStr []"
    "JArr [JNum (1::int)] \<noteq> JObj []"
    by simp_all
  with malformed_upload_outcome
      [of demo_prims "''[1]''" demo_gmaps True "()" _ "JArr [JNum 1]"]
    demo_load_examples(3)
  obtain e where "main demo_prims demo_gmaps (Some ''[1]'') True () =
     \<lparr>messages = [], download = None, requests = [], raised = Some e\<rparr>"
    by blast
  then have b: "messages (main demo_prims demo_gmaps (Some ''[1]'') True ()) = []"
    "download (main demo_prims demo_gmaps (Some ''[1]'') True ()) = None"
    "requests (main demo_prims demo_gmaps (Some ''[1]'') True ()) = []"
    "raised (main demo_prims demo_gmaps (Some ''[1]'') True ()) \<noteq> None"
    by simp_all
  from malformed_upload_outcome
      [of demo_prims "[CHR 0x22, CHR 0x22]" demo_gmaps False "()" _ "JStr []"]
    demo_load_examples(2)
  have c: "main demo_prims demo_gmaps (Some [CHR 0x22, CHR 0x22]) False () =
     \<lparr>messages = [Loaded 0], download = None, requests = [], raised = None\<rparr>"
    by simp
  from a u b c show ?thesis by blast
qed

text \<open>
  Claim C7 as stated fails. The upload \<^verbatim>\<open>""\<close> is valid JSON and not a list of objects;
  the run reports zero locations loaded and, the button pressed, produces a download (of
  the empty list) and no parse error. The upload \<^verbatim>\<open>[1]\<close> ends the run by an
  \<^verbatim>\<open>AttributeError\<close>, and a file that is not UTF-8 text by a \<^verbatim>\<open>UnicodeDecodeError\<close>;
  \<^verbatim>\<open>main\<close> catches neither and shows no message of its own.
\<close>

theorem empty_string_upload_is_processed:
  "json_load demo_prims [CHR 0x22, CHR 0x22] = Inr (JStr []) \<and>
   main demo_prims demo_gmaps (Some [CHR 0x22, CHR 0x22]) True () =
     \<lparr>messages = [Loaded 0, Updated], download = Some [], requests = [], raised = None\<rparr> \<and>
   json_load demo_prims ''[1]'' = Inr (JArr [JNum 1]) \<and>
   main demo_prims demo_gmaps (Some ''[1]'') True () =
     \<lparr>messages = [], download = None, requests = [], raised = Some AttributeError\<rparr> \<and>
   json_load demo_prims [CHR 0xE9] = Inl UnicodeDecodeError \<and>
   main demo_prims demo_gmaps (Some [CHR 0xE9]) True () =
     \<lparr>messages = [], download = None, requests = [], raised = Some UnicodeDecodeError\<rparr>"
  by (simp add: demo_load_examples main_def except_clause_def preprocess_locations_def
      assign_ids_def)

end
